theory Spec2Isabelle
  imports Main "HOL-Library.Sublist" "HOL-Library.Word" "HOL-Library.Char_ord"
    "HOL-Library.List_Lexorder" "HOL-Library.Product_Lexorder"
begin

section \<open>Text: Python strings over the Latin-1 range\<close>

text \<open>
  A Python \<open>str\<close> is a sequence of code points. The text the extractors work on is
  modelled as \<^typ>\<open>string\<close>, whose characters are the code points 0..255; for these
  the character classes of \<open>str\<close> and of \<open>re\<close> are finite tables and are written
  out in full below.
\<close>

definition is_AZ :: "char \<Rightarrow> bool" where
  "is_AZ c = (CHR ''A'' \<le> c \<and> c \<le> CHR ''Z'')"

definition is_az :: "char \<Rightarrow> bool" where
  "is_az c = (CHR ''a'' \<le> c \<and> c \<le> CHR ''z'')"

definition is_09 :: "char \<Rightarrow> bool" where
  "is_09 c = (CHR ''0'' \<le> c \<and> c \<le> CHR ''9'')"

text \<open>\<open>str.isspace\<close> and the class \<open>\s\<close> of a \<open>str\<close> pattern, below 256:
  TAB..CR, FS..US, space, NEL (0x85) and NBSP (0xA0).\<close>

definition is_space :: "char \<Rightarrow> bool" where
  "is_space c = ((CHR 0x09 \<le> c \<and> c \<le> CHR 0x0D) \<or> (CHR 0x1C \<le> c \<and> c \<le> CHR 0x20)
     \<or> c = CHR 0x85 \<or> c = CHR 0xA0)"

text \<open>\<open>str.isalpha\<close> below 256: the ASCII letters, the ordinal indicators, the micro
  sign and the Latin-1 letters (0xD7 and 0xF7 are the multiplication and division signs).\<close>

definition py_isalpha :: "char \<Rightarrow> bool" where
  "py_isalpha c = (is_AZ c \<or> is_az c \<or> c = CHR 0xAA \<or> c = CHR 0xB5 \<or> c = CHR 0xBA
     \<or> (CHR 0xC0 \<le> c \<and> c \<le> CHR 0xD6) \<or> (CHR 0xD8 \<le> c \<and> c \<le> CHR 0xF6) \<or> CHR 0xF8 \<le> c)"

text \<open>The class \<open>\d\<close> of a \<open>str\<close> pattern (decimal digits), below 256.\<close>

definition is_digit :: "char \<Rightarrow> bool" where
  "is_digit c = is_09 c"

text \<open>The class \<open>\w\<close> of a \<open>str\<close> pattern: alphanumeric (\<open>isalnum\<close>, which counts the
  superscript digits and the vulgar fractions) or the underscore.\<close>

definition is_word :: "char \<Rightarrow> bool" where
  "is_word c = (py_isalpha c \<or> is_09 c \<or> c = CHR ''_'' \<or> c = CHR 0xB2 \<or> c = CHR 0xB3
     \<or> c = CHR 0xB9 \<or> (CHR 0xBC \<le> c \<and> c \<le> CHR 0xBE))"

text \<open>\<open>str.lower\<close> on one character below 256: A..Z and the Latin-1 capitals
  0xC0..0xDE (without 0xD7) move up by 32; everything else stays.\<close>

definition lower_char :: "char \<Rightarrow> char" where
  "lower_char c = (if is_AZ c \<or> (CHR 0xC0 \<le> c \<and> c \<le> CHR 0xD6) \<or> (CHR 0xD8 \<le> c \<and> c \<le> CHR 0xDE)
     then char_of (of_char c + (32::nat)) else c)"

definition py_lower :: "string \<Rightarrow> string" where
  "py_lower s = map lower_char s"

text \<open>\<open>str.upper\<close> on one character below 256. The sharp s becomes \<open>SS\<close>. The
  capitals of the micro sign (U+039C) and of y-diaeresis (U+0178) lie above 255; the
  model leaves these two characters in place, which agrees with Python on every
  membership test for an ASCII word, the only use \<open>upper\<close> has in the program.\<close>

definition upper_char :: "char \<Rightarrow> string" where
  "upper_char c = (if c = CHR 0xDF then ''SS''
     else if is_az c \<or> (CHR 0xE0 \<le> c \<and> c \<le> CHR 0xF6) \<or> (CHR 0xF8 \<le> c \<and> c \<le> CHR 0xFE)
     then [char_of (of_char c - (32::nat))] else [c])"

definition py_upper :: "string \<Rightarrow> string" where
  "py_upper s = concat (map upper_char s)"

text \<open>\<open>s.strip(chars)\<close> and \<open>s.strip()\<close>.\<close>

definition strip_where :: "(char \<Rightarrow> bool) \<Rightarrow> string \<Rightarrow> string" where
  "strip_where P s = rev (dropWhile P (rev (dropWhile P s)))"

definition py_strip :: "string \<Rightarrow> string" where
  "py_strip s = strip_where is_space s"

definition py_strip_chars :: "string \<Rightarrow> string \<Rightarrow> string" where
  "py_strip_chars chars s = strip_where (\<lambda>c. c \<in> set chars) s"

text \<open>\<open>x in s\<close> for strings (and \<open>bytes.find\<close> below): the offset of the first
  occurrence of \<open>pat\<close>.\<close>

fun find_sub :: "'a list \<Rightarrow> 'a list \<Rightarrow> nat option" where
  "find_sub pat [] = (if pat = [] then Some 0 else None)"
| "find_sub pat (x # xs) =
     (if prefix pat (x # xs) then Some 0 else map_option Suc (find_sub pat xs))"

definition contains :: "string \<Rightarrow> string \<Rightarrow> bool" where
  "contains x s = (find_sub x s \<noteq> None)"

text \<open>\<open>s.split(sep)\<close> for a one-character separator.\<close>

fun py_split :: "char \<Rightarrow> string \<Rightarrow> string list" where
  "py_split sep [] = [[]]"
| "py_split sep (c # cs) =
     (if c = sep then [] # py_split sep cs
      else (case py_split sep cs of [] \<Rightarrow> [[c]] | w # ws \<Rightarrow> (c # w) # ws))"

text \<open>\<open>str(n)\<close> for a natural number, as the f-strings format the loop counters.\<close>

fun str_of_nat :: "nat \<Rightarrow> string" where
  "str_of_nat n = (if n < 10 then [char_of (48 + n)]
     else str_of_nat (n div 10) @ [char_of (48 + n mod 10)])"

section \<open>Column Normalizer: \<open>clean_column_name\<close>\<close>

text \<open>\<open>re.sub(r'[^A-Za-z0-9\s]', '', name)\<close> deletes every character outside the class;
  \<open>keep_char\<close> is the class that stays.\<close>

definition keep_char :: "char \<Rightarrow> bool" where
  "keep_char c = (is_AZ c \<or> is_az c \<or> is_09 c \<or> is_space c)"

text \<open>\<open>re.sub(r'\s+', '_', s)\<close>: every maximal run of whitespace becomes one underscore.\<close>

function sub_ws_runs :: "string \<Rightarrow> string" where
  "sub_ws_runs [] = []"
| "sub_ws_runs (c # cs) =
     (if is_space c then CHR ''_'' # sub_ws_runs (dropWhile is_space cs)
      else c # sub_ws_runs cs)"
  by pat_completeness auto
termination
  by (relation "measure length") (auto simp: length_dropWhile_le less_Suc_eq_le)

definition clean_column_name :: "string \<Rightarrow> string" where
  "clean_column_name name =
     (let s = filter keep_char name;
          s = py_lower (py_strip_chars ''_'' (sub_ws_runs s))
      in if s \<noteq> [] \<and> \<not> py_isalpha (hd s) then ''f_'' @ s else s)"

text \<open>The shape of a normalised name: lower-case ASCII letters, digits and underscores,
  empty or starting with a letter. Used to describe what \<open>clean_column_name\<close> returns.\<close>

definition norm_chars :: "string \<Rightarrow> bool" where
  "norm_chars u = (list_all (\<lambda>c. is_az c \<or> is_09 c \<or> c = CHR ''_'') u \<and> (u = [] \<or> is_az (hd u)))"


section \<open>Bytes and decoding: \<open>bytes.find\<close>, \<open>bytes.decode\<close>\<close>

type_synonym byte = "8 word"

datatype error = ValueError | BadZipFile | UnicodeDecodeError | NameError | IndexError | KeyError
  | IllegalCharacterError | OSError

text \<open>\<open>raw.find(sig)\<close>: the lowest offset of \<open>sig\<close> in \<open>raw\<close>, or -1.\<close>

definition bytes_find :: "byte list \<Rightarrow> byte list \<Rightarrow> int" where
  "bytes_find raw pat = (case find_sub pat raw of None \<Rightarrow> - 1 | Some i \<Rightarrow> int i)"

text \<open>The ZIP local-file-header signature \<open>b'PK\x03\x04'\<close>.\<close>

definition zip_signature :: "byte list" where
  "zip_signature = [0x50, 0x4B, 0x03, 0x04]"

datatype encoding = UTF8 | UTF16LE | Latin1

text \<open>The \<open>errors\<close> argument of \<open>bytes.decode\<close>. The program always passes
  \<open>errors='ignore'\<close>.\<close>

datatype errors = Strict | Ignore | Replace

text \<open>
  One step of CPython's UTF-8 decoder on the bytes that are left (as numbers): either a
  code point and the number of bytes it took, or an undecodable range and its length.
  The length is what the error handler skips: 1 for an invalid start byte, 1 to 3 for an
  invalid continuation byte (the valid bytes before it), and the rest of the input for
  a sequence the input ends in.
\<close>

datatype ustep = Decoded nat nat | Invalid nat

definition is_cont :: "nat \<Rightarrow> bool" where
  "is_cont b = (0x80 \<le> b \<and> b < 0xC0)"

fun utf8_step :: "nat list \<Rightarrow> ustep" where
  "utf8_step [] = Invalid 1"
| "utf8_step (b0 # rest) =
    (if b0 < 0x80 then Decoded b0 1
     else if b0 < 0xC2 then Invalid 1
     else if b0 < 0xE0 then
       (case rest of
          [] \<Rightarrow> Invalid 1
        | b1 # _ \<Rightarrow> if is_cont b1 then Decoded ((b0 - 0xC0) * 64 + (b1 - 0x80)) 2 else Invalid 1)
     else if b0 < 0xF0 then
       (case rest of
          [] \<Rightarrow> Invalid 1
        | [b1] \<Rightarrow>
            if \<not> is_cont b1 \<or> (if b1 < 0xA0 then b0 = 0xE0 else b0 = 0xED) then Invalid 1
            else Invalid 2
        | b1 # b2 # _ \<Rightarrow>
            if \<not> is_cont b1 then Invalid 1
            else if b0 = 0xE0 \<and> b1 < 0xA0 then Invalid 1
            else if b0 = 0xED \<and> 0xA0 \<le> b1 then Invalid 1
            else if \<not> is_cont b2 then Invalid 2
            else Decoded ((b0 - 0xE0) * 4096 + (b1 - 0x80) * 64 + (b2 - 0x80)) 3)
     else if b0 < 0xF5 then
       (case rest of
          [] \<Rightarrow> Invalid 1
        | [b1] \<Rightarrow>
            if \<not> is_cont b1 \<or> (if b1 < 0x90 then b0 = 0xF0 else b0 = 0xF4) then Invalid 1
            else Invalid 2
        | [b1, b2] \<Rightarrow>
            if \<not> is_cont b1 \<or> (if b1 < 0x90 then b0 = 0xF0 else b0 = 0xF4) then Invalid 1
            else if \<not> is_cont b2 then Invalid 2
            else Invalid 3
        | b1 # b2 # b3 # _ \<Rightarrow>
            if \<not> is_cont b1 then Invalid 1
            else if b0 = 0xF0 \<and> b1 < 0x90 then Invalid 1
            else if b0 = 0xF4 \<and> 0x90 \<le> b1 then Invalid 1
            else if \<not> is_cont b2 then Invalid 2
            else if \<not> is_cont b3 then Invalid 3
            else Decoded ((b0 - 0xF0) * 262144 + (b1 - 0x80) * 4096 + (b2 - 0x80) * 64 + (b3 - 0x80)) 4)
     else Invalid 1)"

text \<open>What the error handler does with an undecodable range, given the decoding \<open>r\<close> of
  what follows it: \<open>strict\<close> raises, \<open>ignore\<close> drops the range, \<open>replace\<close> puts U+FFFD.\<close>

definition on_error :: "errors \<Rightarrow> error + nat list \<Rightarrow> error + nat list" where
  "on_error h r = (case h of
      Strict \<Rightarrow> Inl UnicodeDecodeError
    | Ignore \<Rightarrow> r
    | Replace \<Rightarrow> map_sum id ((#) 0xFFFD) r)"

function utf8_decode :: "errors \<Rightarrow> nat list \<Rightarrow> error + nat list" where
  "utf8_decode h [] = Inr []"
| "utf8_decode h (b # bs) =
    (case utf8_step (b # bs) of
       Decoded cp n \<Rightarrow> map_sum id ((#) cp) (utf8_decode h (drop (n - 1) bs))
     | Invalid n \<Rightarrow> on_error h (utf8_decode h (drop (n - 1) bs)))"
  by pat_completeness auto
termination
  by (relation "measure (\<lambda>(h, bs). length bs)") auto

text \<open>CPython's UTF-16 little-endian decoder: two bytes make a code unit; a high
  surrogate takes the low surrogate after it; a lone low surrogate and a high surrogate
  with no low surrogate after it are errors of two bytes; an odd last byte and a high
  surrogate the input ends in are errors that reach the end of the input.\<close>

fun utf16le_decode :: "errors \<Rightarrow> nat list \<Rightarrow> error + nat list" where
  "utf16le_decode h [] = Inr []"
| "utf16le_decode h [b] = on_error h (Inr [])"
| "utf16le_decode h (lo # hi # bs) =
    (let ch = hi * 256 + lo in
     if ch < 0xD800 \<or> 0xDFFF < ch then map_sum id ((#) ch) (utf16le_decode h bs)
     else if 0xDC00 \<le> ch then on_error h (utf16le_decode h bs)
     else
       (case bs of
          lo2 # hi2 # bs' \<Rightarrow>
            (let ch2 = hi2 * 256 + lo2 in
             if 0xDC00 \<le> ch2 \<and> ch2 \<le> 0xDFFF
             then map_sum id ((#) (0x10000 + (ch - 0xD800) * 1024 + (ch2 - 0xDC00)))
                    (utf16le_decode h bs')
             else on_error h (utf16le_decode h bs))
        | _ \<Rightarrow> on_error h (Inr [])))"

text \<open>\<open>raw.decode(enc, errors=h)\<close>: the code points, or the exception raised.\<close>

definition py_decode :: "encoding \<Rightarrow> errors \<Rightarrow> byte list \<Rightarrow> error + nat list" where
  "py_decode enc h raw = (case enc of
      UTF8 \<Rightarrow> utf8_decode h (map unat raw)
    | UTF16LE \<Rightarrow> utf16le_decode h (map unat raw)
    | Latin1 \<Rightarrow> Inr (map unat raw))"

text \<open>
  The decoding loop of \<open>extract_field_mappings\<close> (lines 42-47) and of
  \<open>extract_data_provider_names\<close> (lines 131-136):
  \<^verbatim>\<open>
  for enc in ('utf-8','utf-16le','latin-1'):
      try:
          text = raw_txt.decode(enc, errors='ignore')
          break
      except:
          continue
  \<close>
  \<open>try_decodings dec encs raw\<close> is the value the loop binds, if an attempt returns;
  \<open>dec enc raw\<close> stands for \<open>raw.decode(enc, errors='ignore')\<close>.
\<close>

fun try_decodings :: "(encoding \<Rightarrow> byte list \<Rightarrow> error + 'a) \<Rightarrow> encoding list \<Rightarrow> byte list \<Rightarrow> 'a option" where
  "try_decodings dec [] raw = None"
| "try_decodings dec (enc # encs) raw =
    (case dec enc raw of Inr t \<Rightarrow> Some t | Inl e \<Rightarrow> try_decodings dec encs raw)"

text \<open>The loop on one buffer with CPython's decoders, the variable not bound before:
  the code points of the text, or \<open>NameError\<close> where the text is used.\<close>

definition decode_text :: "byte list \<Rightarrow> error + nat list" where
  "decode_text raw =
    (case try_decodings (\<lambda>enc. py_decode enc Ignore) [UTF8, UTF16LE, Latin1] raw of
       Some t \<Rightarrow> Inr t
     | None \<Rightarrow> Inl NameError)"

text \<open>The variable after the loop: what the loop bound, or what the variable held
  before (from the iteration before) when every attempt raised.\<close>

definition bind_text :: "(encoding \<Rightarrow> byte list \<Rightarrow> error + 'a) \<Rightarrow> byte list \<Rightarrow> 'a option \<Rightarrow> 'a option" where
  "bind_text dec raw before =
    (case try_decodings dec [UTF8, UTF16LE, Latin1] raw of Some t \<Rightarrow> Some t | None \<Rightarrow> before)"

text \<open>The decoding of the document-level scanners (lines 307-310, 328-331):
  \<^verbatim>\<open>
  try:
      txt = raw.decode('utf-16le', errors='ignore')
  except:
      txt = raw.decode('latin-1', errors='ignore')
  \<close>\<close>

definition decode_doc :: "(encoding \<Rightarrow> byte list \<Rightarrow> error + 'a) \<Rightarrow> byte list \<Rightarrow> error + 'a" where
  "decode_doc dec raw = (case dec UTF16LE raw of Inr t \<Rightarrow> Inr t | Inl e \<Rightarrow> dec Latin1 raw)"

section \<open>Regular expressions: the \<open>re\<close> module\<close>

text \<open>
  The patterns of the program are written as syntax trees and run by a matcher with
  the semantics of \<open>re\<close>: a backtracking search that tries the alternatives in
  priority order (a greedy repetition the longest first, a lazy one the shortest
  first). \<open>rmatch\<close> returns every way a pattern matches at the start of the input, in that
  order, so the match \<open>re\<close> finds is the head of the list. Every repetition in
  the program's patterns is over a single character (a literal, the dot or a class), so
  \<open>Star\<close> and \<open>StarLazy\<close> take an atom.
\<close>

datatype citem = C char | CSpace | CDigit | CWord

datatype atom = Lit char | Dot | Cls bool "citem list"

datatype regex =
    Atom atom
  | Seq regex regex
  | Alt regex regex
  | Star atom
  | StarLazy atom
  | Grp nat regex
  | WordB
  | Eps

record flags =
  ignorecase :: bool
  dotall :: bool

definition NOFLAGS :: flags where
  "NOFLAGS = \<lparr>ignorecase = False, dotall = False\<rparr>"

definition IGNORECASE :: flags where
  "IGNORECASE = \<lparr>ignorecase = True, dotall = False\<rparr>"

definition IGNORECASE_DOTALL :: flags where
  "IGNORECASE_DOTALL = \<lparr>ignorecase = True, dotall = True\<rparr>"

text \<open>With \<open>IGNORECASE\<close> a literal matches a character of the same lower case.\<close>

definition char_eq :: "bool \<Rightarrow> char \<Rightarrow> char \<Rightarrow> bool" where
  "char_eq ic x c = (if ic then lower_char x = lower_char c else x = c)"

fun citem_match :: "bool \<Rightarrow> citem \<Rightarrow> char \<Rightarrow> bool" where
  "citem_match ic (C c) x = char_eq ic x c"
| "citem_match ic CSpace x = is_space x"
| "citem_match ic CDigit x = is_digit x"
| "citem_match ic CWord x = is_word x"

text \<open>Whether an atom matches the character \<open>x\<close>. \<open>Cls neg items\<close> is the class
  \<open>[items]\<close>, or \<open>[^items]\<close> when \<open>neg\<close> holds; the dot matches a newline only with
  \<open>DOTALL\<close>.\<close>

fun atom_match :: "flags \<Rightarrow> atom \<Rightarrow> char \<Rightarrow> bool" where
  "atom_match f (Lit c) x = char_eq (ignorecase f) x c"
| "atom_match f Dot x = (dotall f \<or> x \<noteq> CHR 0x0A)"
| "atom_match f (Cls neg items) x = (list_ex (\<lambda>i. citem_match (ignorecase f) i x) items \<noteq> neg)"

text \<open>A matcher state: the groups captured so far, the character before the current
  position (for \<open>\b\<close>), the characters consumed since the innermost enclosing group
  opened (the latest first) and the input that is left.\<close>

type_synonym mstate = "(nat \<times> string) list \<times> char option \<times> string \<times> string"

fun rmatch :: "flags \<Rightarrow> regex \<Rightarrow> mstate \<Rightarrow> mstate list" where
  "rmatch f (Atom a) (g, p, acc, s) =
     (case s of [] \<Rightarrow> [] | x # xs \<Rightarrow> if atom_match f a x then [(g, Some x, x # acc, xs)] else [])"
| "rmatch f (Seq a b) st = concat (map (rmatch f b) (rmatch f a st))"
| "rmatch f (Alt a b) st = rmatch f a st @ rmatch f b st"
| "rmatch f (Star a) (g, p, acc, s) =
     (case s of
        [] \<Rightarrow> [(g, p, acc, s)]
      | x # xs \<Rightarrow>
          if atom_match f a x then rmatch f (Star a) (g, Some x, x # acc, xs) @ [(g, p, acc, s)]
          else [(g, p, acc, s)])"
| "rmatch f (StarLazy a) (g, p, acc, s) =
     (g, p, acc, s) #
     (case s of
        [] \<Rightarrow> []
      | x # xs \<Rightarrow> if atom_match f a x then rmatch f (StarLazy a) (g, Some x, x # acc, xs) else [])"
| "rmatch f (Grp n a) (g, p, acc, s) =
     map (\<lambda>(g', p', acc', s'). ((n, rev acc') # g', p', acc' @ acc, s')) (rmatch f a (g, p, [], s))"
| "rmatch f WordB (g, p, acc, s) =
     (if (case p of None \<Rightarrow> False | Some c \<Rightarrow> is_word c) \<noteq> (case s of [] \<Rightarrow> False | c # _ \<Rightarrow> is_word c)
      then [(g, p, acc, s)] else [])"
| "rmatch f Eps st = [st]"

fun seq :: "regex list \<Rightarrow> regex" where
  "seq [] = Eps"
| "seq [r] = r"
| "seq (r # rs) = Seq r (seq rs)"

definition lit :: "string \<Rightarrow> regex" where
  "lit s = seq (map (\<lambda>c. Atom (Lit c)) s)"

definition Plus :: "atom \<Rightarrow> regex" where
  "Plus a = Seq (Atom a) (Star a)"

definition PlusLazy :: "atom \<Rightarrow> regex" where
  "PlusLazy a = Seq (Atom a) (StarLazy a)"

definition Opt :: "regex \<Rightarrow> regex" where
  "Opt r = Alt r Eps"

text \<open>The first match at the start of \<open>s\<close>, with \<open>p\<close> the character before it: the
  groups, the last character consumed and the input left.\<close>

definition match_here :: "flags \<Rightarrow> regex \<Rightarrow> char option \<Rightarrow> string
    \<Rightarrow> ((nat \<times> string) list \<times> char option \<times> string) option" where
  "match_here f r p s =
     (case rmatch f r ([], p, [], s) of [] \<Rightarrow> None | (g, p', acc, s') # _ \<Rightarrow> Some (g, p', s'))"

text \<open>\<open>re.search\<close>: the match at the leftmost position that has one.\<close>

fun re_search_from :: "flags \<Rightarrow> regex \<Rightarrow> char option \<Rightarrow> string
    \<Rightarrow> ((nat \<times> string) list \<times> char option \<times> string) option" where
  "re_search_from f r p [] = match_here f r p []"
| "re_search_from f r p (c # cs) =
     (case match_here f r p (c # cs) of
        Some m \<Rightarrow> Some m
      | None \<Rightarrow> re_search_from f r (Some c) cs)"

definition re_search :: "flags \<Rightarrow> regex \<Rightarrow> string \<Rightarrow> (nat \<times> string) list option" where
  "re_search f r s = map_option fst (re_search_from f r None s)"

text \<open>\<open>re.finditer\<close>: the matches from left to right, each search starting where the
  match before it ended. (Every pattern of the program consumes at least one character;
  a match that consumed none would end the scan here.)\<close>

function re_finditer_from :: "flags \<Rightarrow> regex \<Rightarrow> char option \<Rightarrow> string \<Rightarrow> (nat \<times> string) list list" where
  "re_finditer_from f r p s =
     (case re_search_from f r p s of
        None \<Rightarrow> []
      | Some (g, p', s') \<Rightarrow>
          if length s' < length s then g # re_finditer_from f r p' s' else [g])"
  by pat_completeness auto
termination
  by (relation "measure (\<lambda>(f, r, p, s). length s)") auto

definition re_finditer :: "flags \<Rightarrow> regex \<Rightarrow> string \<Rightarrow> (nat \<times> string) list list" where
  "re_finditer f r s = re_finditer_from f r None s"

text \<open>\<open>m.group(n)\<close>.\<close>

definition m_group :: "(nat \<times> string) list \<Rightarrow> nat \<Rightarrow> string" where
  "m_group g n = (case map_of g n of Some s \<Rightarrow> s | None \<Rightarrow> [])"

subsection \<open>The patterns of the program\<close>

definition chr :: "char \<Rightarrow> regex" where
  "chr c = Atom (Lit c)"

definition quote :: atom where
  "quote = Cls False [C (CHR 0x22), C (CHR 0x27)]"

definition not_quote :: atom where
  "not_quote = Cls True [C (CHR 0x22), C (CHR 0x27)]"

definition not_gt :: atom where
  "not_gt = Cls True [C CHR ''>'']"

definition ws :: atom where
  "ws = Cls False [CSpace]"

text \<open>\<^verbatim>\<open>(<[^>]*QuerySpec[^>]*>.*?</[^>]*QuerySpec[^>]*>)\<close>\<close>

definition pat_QuerySpec :: regex where
  "pat_QuerySpec = Grp 1 (seq [chr CHR ''<'', Star not_gt, lit ''QuerySpec'', Star not_gt, chr CHR ''>'',
     StarLazy Dot, lit ''</'', Star not_gt, lit ''QuerySpec'', Star not_gt, chr CHR ''>''])"

text \<open>\<^verbatim>\<open><QueryCalculation[^>]+alias=["\']([^"\']+)["\'][^>]+calculation=["\']([^"\']+)["\']\<close>\<close>

definition pat_QueryCalculation :: regex where
  "pat_QueryCalculation = seq [lit ''<QueryCalculation'', Plus not_gt, lit ''alias='', Atom quote,
     Grp 1 (Plus not_quote), Atom quote, Plus not_gt, lit ''calculation='', Atom quote,
     Grp 2 (Plus not_quote), Atom quote]"

text \<open>\<^verbatim>\<open><CalculatedField[^>]+name=["\']([^"\']+)["\'][^>]*>([^<]+)\<close>\<close>

definition pat_CalculatedField :: regex where
  "pat_CalculatedField = seq [lit ''<CalculatedField'', Plus not_gt, lit ''name='', Atom quote,
     Grp 1 (Plus not_quote), Atom quote, Star not_gt, chr CHR ''>'',
     Grp 2 (Plus (Cls True [C CHR ''<'']))]"

text \<open>\<^verbatim>\<open>Variable\s+([^=\s]+)\s*=\s*([^;]+);\<close>\<close>

definition pat_Variable :: regex where
  "pat_Variable = seq [lit ''Variable'', Plus ws, Grp 1 (Plus (Cls True [C CHR ''='', CSpace])),
     Star ws, chr CHR ''='', Star ws, Grp 2 (Plus (Cls True [C CHR '';''])), chr CHR '';'']"

text \<open>\<^verbatim>\<open>(DP\d+\.DO\w+)\<close>\<close>

definition pat2 :: regex where
  "pat2 = Grp 1 (seq [lit ''DP'', Plus (Cls False [CDigit]), chr CHR ''.'', lit ''DO'',
     Plus (Cls False [CWord])])"

text \<open>\<^verbatim>\<open>([^=\n]+?)\s*=\s*([^,;\n]+)[,;\s]+(DP\d+\.DO\w+)\<close>\<close>

definition pat1 :: regex where
  "pat1 = seq [Grp 1 (PlusLazy (Cls True [C CHR ''='', C (CHR 0x0A)])), Star ws, chr CHR ''='', Star ws,
     Grp 2 (Plus (Cls True [C CHR '','', C CHR '';'', C (CHR 0x0A)])),
     Plus (Cls False [C CHR '','', C CHR '';'', CSpace]),
     Grp 3 (seq [lit ''DP'', Plus (Cls False [CDigit]), chr CHR ''.'', lit ''DO'',
       Plus (Cls False [CWord])])]"

text \<open>\<^verbatim>\<open>formula=["\']([^"\']+)["\']\<close>, and the same for \<open>expression\<close> and \<open>calculation\<close>.\<close>

definition pat_attr :: "string \<Rightarrow> regex" where
  "pat_attr kw = seq [lit kw, chr CHR ''='', Atom quote, Grp 1 (Plus not_quote), Atom quote]"

text \<open>\<^verbatim>\<open>(DP\d+)\<close>, \<^verbatim>\<open>\bemp\b\<close> and \<^verbatim>\<open>\buniverses?\b\<close>.\<close>

definition pat_DP :: regex where
  "pat_DP = Grp 1 (seq [lit ''DP'', Plus (Cls False [CDigit])])"

definition pat_emp :: regex where
  "pat_emp = seq [WordB, lit ''emp'', WordB]"

definition pat_universes :: regex where
  "pat_universes = seq [WordB, lit ''universe'', Opt (chr CHR ''s''), WordB]"

section \<open>Dictionaries, the archive and the XML tree\<close>

text \<open>A Python \<open>dict\<close> keeps its keys in insertion order: an association list with
  distinct keys. \<open>d[k] = v\<close> replaces the value of a key that is there, in place, and
  appends a new key; \<open>d.setdefault(k, v)\<close> appends a new key and leaves the others.\<close>

fun dict_set :: "'k \<Rightarrow> 'v \<Rightarrow> ('k \<times> 'v) list \<Rightarrow> ('k \<times> 'v) list" where
  "dict_set k v [] = [(k, v)]"
| "dict_set k v ((k', v') # d) = (if k' = k then (k, v) # d else (k', v') # dict_set k v d)"

definition dict_setdefault :: "'k \<Rightarrow> 'v \<Rightarrow> ('k \<times> 'v) list \<Rightarrow> ('k \<times> 'v) list" where
  "dict_setdefault k v d = (case map_of d k of Some _ \<Rightarrow> d | None \<Rightarrow> d @ [(k, v)])"

text \<open>The opened archive: its entries in order, each a name and its bytes.
  \<open>z.read(name)\<close> reads the last entry of that name.\<close>

type_synonym archive = "(string \<times> byte list) list"

definition namelist :: "archive \<Rightarrow> string list" where
  "namelist z = map fst z"

definition zread :: "archive \<Rightarrow> string \<Rightarrow> error + byte list" where
  "zread z fn = (case map_of (rev z) fn of Some b \<Rightarrow> Inr b | None \<Rightarrow> Inl KeyError)"

text \<open>An \<open>xml.etree.ElementTree\<close> element: tag, attributes, children.\<close>

datatype element = Element string "(string \<times> string) list" "element list"

fun tag :: "element \<Rightarrow> string" where
  "tag (Element t a cs) = t"

fun el_get :: "element \<Rightarrow> string \<Rightarrow> string option" where
  "el_get (Element t a cs) k = map_of a k"

text \<open>\<open>root.findall('.//*')\<close>: every descendant of the root in document order, without
  the root itself.\<close>

fun descendants :: "element \<Rightarrow> element list" where
  "descendants (Element t a cs) = concat (map (\<lambda>c. c # descendants c) cs)"

section \<open>Field extractors\<close>

text \<open>\<open>extract_xml\<close> (lines 155-164).\<close>

definition extract_xml :: "string \<Rightarrow> string option" where
  "extract_xml text =
    (if text = [] then None
     else case re_search IGNORECASE_DOTALL pat_QuerySpec text of
        None \<Rightarrow> None
      | Some m \<Rightarrow> Some (m_group m 1))"

record field_info =
  fi_display_name :: string
  fi_expression :: string
  fi_element_type :: string
  fi_data_type :: string
  fi_is_calculated :: bool

text \<open>Python's \<open>a or b\<close> on the results of \<open>el.get\<close>: \<open>a\<close> if it is a non-empty string,
  else \<open>b\<close>; and \<open>x or ''\<close>.\<close>

definition py_or :: "string option \<Rightarrow> string option \<Rightarrow> string option" where
  "py_or a b = (case a of Some (c # cs) \<Rightarrow> a | _ \<Rightarrow> b)"

definition or_empty :: "string option \<Rightarrow> string" where
  "or_empty a = (case a of Some s \<Rightarrow> s | None \<Rightarrow> [])"

text \<open>The body of the first loop of \<open>extract_comprehensive_field_info\<close> (lines 184-200):
  the entry an element contributes, if it has an identifier and a display name.\<close>

definition element_field :: "element \<Rightarrow> (string \<times> field_info) option" where
  "element_field el =
    (let fid = py_or (py_or (py_or (el_get el ''id'') (el_get el ''identifier''))
                   (el_get el ''uniqueName'')) (el_get el ''technicalName'');
         disp = py_or (py_or (el_get el ''name'') (el_get el ''displayName'')) (el_get el ''caption'');
         expr = or_empty (py_or (py_or (el_get el ''expression'') (el_get el ''formula''))
                   (el_get el ''calculation''));
         dt = or_empty (py_or (el_get el ''dataType'') (el_get el ''type''))
     in case (fid, disp) of
          (Some (f # fs), Some (d # ds)) \<Rightarrow>
            Some (f # fs,
              \<lparr>fi_display_name = py_strip (d # ds), fi_expression = py_strip expr,
               fi_element_type = tag el, fi_data_type = dt,
               fi_is_calculated = (py_strip expr \<noteq> [])\<rparr>)
        | _ \<Rightarrow> None)"

text \<open>The body of the second loop (lines 203-216): a \<open>QueryCalculation\<close> match.\<close>

definition calculation_field :: "(nat \<times> string) list \<Rightarrow> string \<times> field_info" where
  "calculation_field m =
    (let alias = py_strip (m_group m 1); calc = py_strip (m_group m 2)
     in (''QC::'' @ alias,
         \<lparr>fi_display_name = alias, fi_expression = calc, fi_element_type = ''QueryCalculation'',
          fi_data_type = [], fi_is_calculated = True\<rparr>))"

text \<open>\<open>extract_comprehensive_field_info\<close> (lines 167-218), with the XML parser as a
  parameter.\<close>

definition extract_comprehensive_field_info ::
    "(string \<Rightarrow> element option) \<Rightarrow> string \<Rightarrow> (string \<times> field_info) list" where
  "extract_comprehensive_field_info fromstring xml_text =
    (if xml_text = [] then []
     else case fromstring xml_text of
        None \<Rightarrow> []
      | Some root \<Rightarrow>
          (let info = fold (\<lambda>el info. case element_field el of
                               None \<Rightarrow> info
                             | Some (fid, fi) \<Rightarrow> dict_set fid fi info)
                        (descendants root) [];
               info = fold (\<lambda>m info. dict_set (fst (calculation_field m)) (snd (calculation_field m)) info)
                        (re_finditer IGNORECASE_DOTALL pat_QueryCalculation xml_text) info
           in info))"

record direct_mapping =
  dm_display_name :: string
  dm_sample_value :: string

text \<open>\<open>extract_direct_mappings\<close> (lines 221-235): pass 1 assigns, pass 2 uses
  \<open>setdefault\<close>.\<close>

definition direct_pass1 :: "string \<Rightarrow> (string \<times> direct_mapping) list" where
  "direct_pass1 text =
    fold (\<lambda>m dm. dict_set (m_group m 3)
            \<lparr>dm_display_name = py_strip (m_group m 1), dm_sample_value = py_strip (m_group m 2)\<rparr> dm)
      (re_finditer IGNORECASE pat1 text) []"

definition direct_pass2 :: "string \<Rightarrow> (string \<times> direct_mapping) list \<Rightarrow> (string \<times> direct_mapping) list" where
  "direct_pass2 text dm =
    fold (\<lambda>m dm. dict_setdefault (m_group m 1) \<lparr>dm_display_name = [], dm_sample_value = []\<rparr> dm)
      (re_finditer IGNORECASE pat2 text) dm"

definition extract_direct_mappings :: "string \<Rightarrow> (string \<times> direct_mapping) list" where
  "extract_direct_mappings text = direct_pass2 text (direct_pass1 text)"

text \<open>\<open>extract_dp_formulas\<close> (lines 238-246). The inner loop numbers the matches of one
  pattern with \<open>enumerate\<close>, from 0 for each pattern, and assigns into the one \<open>out\<close>.\<close>

definition scan_attr :: "string \<Rightarrow> string \<Rightarrow> regex \<Rightarrow> (string \<times> string) list \<Rightarrow> (string \<times> string) list" where
  "scan_attr text dp_id pat out =
    fold (\<lambda>(i, m) out. dict_set (dp_id @ ''_FORM_'' @ str_of_nat i) (py_strip (m_group m 1)) out)
      (enumerate 0 (re_finditer IGNORECASE pat text)) out"

definition extract_dp_formulas :: "string \<Rightarrow> string \<Rightarrow> (string \<times> string) list" where
  "extract_dp_formulas text dp_id =
    fold (scan_attr text dp_id)
      [pat_attr ''formula'', pat_attr ''expression'', pat_attr ''calculation''] []"

section \<open>Mapping Merger: \<open>process_enhanced_mappings\<close>\<close>

text \<open>The output row: one field per column, named as the keys of the source.\<close>

record mapping_row =
  Data_Provider_ID :: string
  Data_Provider :: string
  Technical_ID :: string
  Display_Name :: string
  Field_Type :: string
  Formula :: string
  Description :: string
  Sample_Value :: string
  Databricks_Table :: string
  Databricks_Column :: string
  XML_ID :: string

text \<open>The rows the three loops append (lines 252-264, 268-280, 282-294).\<close>

definition field_row :: "string \<Rightarrow> string \<Rightarrow> string \<times> field_info \<Rightarrow> mapping_row" where
  "field_row dp_id dp_name e =
    (case e of (fid, fi) \<Rightarrow>
     \<lparr>Data_Provider_ID = dp_id, Data_Provider = dp_name, Technical_ID = fid,
      Display_Name = fi_display_name fi,
      Field_Type = (if fi_is_calculated fi then ''Calculated Field'' else ''Data Field''),
      Formula = fi_expression fi,
      Description = fi_element_type fi @ '', type='' @ fi_data_type fi,
      Sample_Value = [], Databricks_Table = [],
      Databricks_Column = clean_column_name (fi_display_name fi),
      XML_ID = fid\<rparr>)"

definition direct_row :: "string \<Rightarrow> string \<Rightarrow> string \<Rightarrow> direct_mapping \<Rightarrow> mapping_row" where
  "direct_row dp_id dp_name tid mm =
     \<lparr>Data_Provider_ID = dp_id, Data_Provider = dp_name, Technical_ID = tid,
      Display_Name = dm_display_name mm,
      Field_Type = ''Data Field'',
      Formula = [],
      Description = ''Direct mapping'',
      Sample_Value = dm_sample_value mm, Databricks_Table = [],
      Databricks_Column =
        clean_column_name (if dm_display_name mm \<noteq> [] then dm_display_name mm else tid),
      XML_ID = []\<rparr>"

definition formula_row :: "string \<Rightarrow> string \<Rightarrow> string \<times> string \<Rightarrow> mapping_row" where
  "formula_row dp_id dp_name e =
    (case e of (fid, formula) \<Rightarrow>
     \<lparr>Data_Provider_ID = dp_id, Data_Provider = dp_name, Technical_ID = fid,
      Display_Name = ''Formula '' @ fid,
      Field_Type = ''Data Provider Formula'',
      Formula = formula,
      Description = ''From DP_Generic'',
      Sample_Value = [], Databricks_Table = [],
      Databricks_Column = clean_column_name (''formula_'' @ fid),
      XML_ID = []\<rparr>)"

text \<open>The second loop (lines 265-280): a direct mapping is skipped when some row of
  \<open>out\<close>, the list all providers share, has its technical id.\<close>

fun add_direct :: "string \<Rightarrow> string \<Rightarrow> (string \<times> direct_mapping) list \<Rightarrow> mapping_row list
    \<Rightarrow> mapping_row list" where
  "add_direct dp_id dp_name [] out = out"
| "add_direct dp_id dp_name ((tid, mm) # rest) out =
    (if list_ex (\<lambda>r. Technical_ID r = tid) out then add_direct dp_id dp_name rest out
     else add_direct dp_id dp_name rest (out @ [direct_row dp_id dp_name tid mm]))"

text \<open>\<open>process_enhanced_mappings\<close> (lines 249-294): \<open>out\<close> is passed in and returned.\<close>

definition process_enhanced_mappings ::
    "string \<Rightarrow> string \<Rightarrow> (string \<times> field_info) list \<Rightarrow> (string \<times> direct_mapping) list
      \<Rightarrow> (string \<times> string) list \<Rightarrow> mapping_row list \<Rightarrow> mapping_row list" where
  "process_enhanced_mappings dp_id dp_name field_info direct_map dp_forms out =
    (let out = out @ map (field_row dp_id dp_name) field_info;
         out = add_direct dp_id dp_name direct_map out;
         out = out @ map (formula_row dp_id dp_name) dp_forms
     in out)"

section \<open>The libraries the program calls\<close>

text \<open>
  The calls into libraries whose results the model does not compute are parameters:
  \<^item> \<open>ZipFile\<close>: \<open>zipfile.ZipFile\<close> on the bytes it is given; \<open>None\<close> when it raises
    \<open>BadZipFile\<close>;
  \<^item> \<open>decode\<close>: \<open>raw.decode(enc, errors='ignore')\<close> as a string of the model, or the
    exception it raises;
  \<^item> \<open>ET_fromstring\<close>: \<open>ET.fromstring\<close>; \<open>None\<close> when it raises \<open>ParseError\<close>;
  \<^item> \<open>sink\<close>: a call of the spreadsheet and CSV writer; the exception it raises, or
    \<open>None\<close> when it returns.
\<close>

datatype sink_call =
    OpenExcel string
  | ToExcel string string "mapping_row list"
  | CloseExcel string
  | ToCsv string "mapping_row list"

record env =
  ZipFile :: "byte list \<Rightarrow> archive option"
  decode :: "encoding \<Rightarrow> byte list \<Rightarrow> error + string"
  ET_fromstring :: "string \<Rightarrow> element option"
  sink :: "sink_call \<Rightarrow> error option"

section \<open>Document-level scanners and the classifier\<close>

record doc_entry =
  de_id :: string
  de_name :: string
  de_formula :: string
  de_description :: string

definition any_in_upper :: "string list \<Rightarrow> string \<Rightarrow> bool" where
  "any_in_upper words fn = list_ex (\<lambda>x. contains x (py_upper fn)) words"

text \<open>The matches of one pattern in one entry, appended to \<open>results\<close>; the id counts
  the results so far (\<open>len(results)\<close>).\<close>

definition append_entries :: "string \<Rightarrow> string \<Rightarrow> (nat \<times> string) list list \<Rightarrow> doc_entry list
    \<Rightarrow> doc_entry list" where
  "append_entries pre fn ms results =
    fold (\<lambda>m results. results @
            [\<lparr>de_id = pre @ str_of_nat (length results), de_name = py_strip (m_group m 1),
              de_formula = py_strip (m_group m 2), de_description = ''From '' @ fn\<rparr>])
      ms results"

text \<open>\<open>extract_calculated_fields\<close> (lines 297-319), as a loop over the names.\<close>

fun calculated_fields_loop :: "env \<Rightarrow> archive \<Rightarrow> string list \<Rightarrow> doc_entry list \<Rightarrow> error + doc_entry list" where
  "calculated_fields_loop env z [] results = Inr results"
| "calculated_fields_loop env z (fn # fns) results =
    (if any_in_upper [''DOCUMENT'', ''REPORT'', ''STRUCTURE''] fn then
       (case zread z fn of Inl e \<Rightarrow> Inl e | Inr raw \<Rightarrow>
        case decode_doc (decode env) raw of Inl e \<Rightarrow> Inl e | Inr txt \<Rightarrow>
          calculated_fields_loop env z fns
            (fold (\<lambda>pat results.
                     append_entries ''CF_'' fn (re_finditer IGNORECASE_DOTALL pat txt) results)
               [pat_CalculatedField, pat_QueryCalculation] results))
     else calculated_fields_loop env z fns results)"

definition extract_calculated_fields :: "env \<Rightarrow> archive \<Rightarrow> error + doc_entry list" where
  "extract_calculated_fields env z = calculated_fields_loop env z (namelist z) []"

text \<open>\<open>extract_report_variables\<close> (lines 322-339).\<close>

fun report_variables_loop :: "env \<Rightarrow> archive \<Rightarrow> string list \<Rightarrow> doc_entry list \<Rightarrow> error + doc_entry list" where
  "report_variables_loop env z [] results = Inr results"
| "report_variables_loop env z (fn # fns) results =
    (if any_in_upper [''DOCUMENT'', ''VARIABLE'', ''FORMULA''] fn then
       (case zread z fn of Inl e \<Rightarrow> Inl e | Inr raw \<Rightarrow>
        case decode_doc (decode env) raw of Inl e \<Rightarrow> Inl e | Inr txt \<Rightarrow>
          report_variables_loop env z fns
            (append_entries ''RV_'' fn (re_finditer IGNORECASE pat_Variable txt) results))
     else report_variables_loop env z fns results)"

definition extract_report_variables :: "env \<Rightarrow> archive \<Rightarrow> error + doc_entry list" where
  "extract_report_variables env z = report_variables_loop env z (namelist z) []"

text \<open>The label of a provider (lines 139-151).\<close>

definition classify :: "string option \<Rightarrow> string \<Rightarrow> string" where
  "classify qxml dp =
    (case qxml of
       None \<Rightarrow> dp
     | Some x \<Rightarrow>
        (let lo = py_lower x in
         if contains ''com.sap.sl.queryspec'' lo \<or> contains ''bex'' lo then ''BEx''
         else if re_search NOFLAGS pat_emp lo \<noteq> None then ''EMP''
         else if re_search NOFLAGS pat_universes lo \<noteq> None then ''universes''
         else dp))"

text \<open>\<open>extract_data_provider_names\<close> (lines 120-152). \<open>txt\<close> is the variable the
  decoding loop binds; it keeps its value from one entry to the next.\<close>

fun data_provider_names_loop :: "env \<Rightarrow> archive \<Rightarrow> string list \<Rightarrow> string option
    \<Rightarrow> (string \<times> string) list \<Rightarrow> error + (string \<times> string) list" where
  "data_provider_names_loop env z [] txt dp_names = Inr dp_names"
| "data_provider_names_loop env z (fn # fns) txt dp_names =
    (if suffix ''DP_Generic'' fn then
       (case re_search NOFLAGS pat_DP fn of
          None \<Rightarrow> data_provider_names_loop env z fns txt dp_names
        | Some m \<Rightarrow>
           (case zread z fn of Inl e \<Rightarrow> Inl e | Inr raw \<Rightarrow>
            case bind_text (decode env) raw txt of
              None \<Rightarrow> Inl NameError
            | Some t \<Rightarrow>
                data_provider_names_loop env z fns (Some t)
                  (dict_set (m_group m 1) (classify (extract_xml t) (m_group m 1)) dp_names)))
     else data_provider_names_loop env z fns txt dp_names)"

definition extract_data_provider_names :: "env \<Rightarrow> archive \<Rightarrow> error + (string \<times> string) list" where
  "extract_data_provider_names env z = data_provider_names_loop env z (namelist z) None []"

section \<open>Report Assembler: \<open>extract_field_mappings\<close>\<close>

text \<open>The provider loop (lines 33-55). \<open>mappings\<close> is the list every provider appends
  to; \<open>text\<close> is the variable the decoding loop binds.\<close>

definition dp_folders :: "archive \<Rightarrow> string list" where
  "dp_folders z = filter (\<lambda>f. suffix ''/'' f \<and> contains ''/DATAPROVIDERS/DP'' f) (namelist z)"

fun provider_loop :: "env \<Rightarrow> archive \<Rightarrow> (string \<times> string) list \<Rightarrow> string list
    \<Rightarrow> string option \<Rightarrow> mapping_row list \<Rightarrow> error + mapping_row list" where
  "provider_loop env z dp_names [] text mappings = Inr mappings"
| "provider_loop env z dp_names (dp_folder # rest) text mappings =
    (case rev (py_split CHR ''/'' dp_folder) of
       _ # dp_id # _ \<Rightarrow>
        (let dp_nm = (case map_of dp_names dp_id of Some n \<Rightarrow> n | None \<Rightarrow> dp_id);
             dpg = dp_folder @ ''DP_Generic''
         in if dpg \<in> set (namelist z) then
              (case zread z dpg of Inl e \<Rightarrow> Inl e | Inr raw_txt \<Rightarrow>
               case bind_text (decode env) raw_txt text of
                 None \<Rightarrow> Inl NameError
               | Some t \<Rightarrow>
                 (let xml = extract_xml t;
                      field_info = (case xml of
                          Some x \<Rightarrow> extract_comprehensive_field_info (ET_fromstring env) x
                        | None \<Rightarrow> []);
                      direct_map = extract_direct_mappings t;
                      dp_forms = extract_dp_formulas t dp_id
                  in provider_loop env z dp_names rest (Some t)
                       (process_enhanced_mappings dp_id dp_nm field_info direct_map dp_forms mappings)))
            else provider_loop env z dp_names rest text mappings)
     | _ \<Rightarrow> Inl IndexError)"

text \<open>The document-level rows (lines 58-85).\<close>

definition calc_row :: "doc_entry \<Rightarrow> mapping_row" where
  "calc_row cf =
     \<lparr>Data_Provider_ID = ''CALC'', Data_Provider = ''Document Variables'',
      Technical_ID = de_id cf, Display_Name = de_name cf, Field_Type = ''Calculated Field'',
      Formula = de_formula cf, Description = de_description cf, Sample_Value = [],
      Databricks_Table = [], Databricks_Column = clean_column_name (de_name cf), XML_ID = []\<rparr>"

definition var_row :: "doc_entry \<Rightarrow> mapping_row" where
  "var_row rv =
     \<lparr>Data_Provider_ID = ''VAR'', Data_Provider = ''Report Variables'',
      Technical_ID = de_id rv, Display_Name = de_name rv, Field_Type = ''Report Variable'',
      Formula = de_formula rv, Description = de_description rv, Sample_Value = [],
      Databricks_Table = [], Databricks_Column = clean_column_name (de_name rv), XML_ID = []\<rparr>"

text \<open>Steps 2 to 5 (lines 23-85): the rows in discovery order.\<close>

definition collect_mappings :: "env \<Rightarrow> archive \<Rightarrow> error + mapping_row list" where
  "collect_mappings env z =
    (case extract_data_provider_names env z of Inl e \<Rightarrow> Inl e | Inr dp_names \<Rightarrow>
     case extract_calculated_fields env z of Inl e \<Rightarrow> Inl e | Inr calc_fields \<Rightarrow>
     case extract_report_variables env z of Inl e \<Rightarrow> Inl e | Inr report_vars \<Rightarrow>
     case provider_loop env z dp_names (dp_folders z) None [] of Inl e \<Rightarrow> Inl e | Inr mappings \<Rightarrow>
       Inr (mappings @ map calc_row calc_fields @ map var_row report_vars))"

text \<open>\<open>df.sort_values(['Data Provider','Display Name'])\<close> (line 101). pandas sorts by
  several columns with a stable lexicographic sort of the rows; strings compare by code
  point. It is modelled by the stable insertion sort \<open>sort_key\<close> on the pair of columns.
  Every row has all eleven columns, so the loop that adds missing columns (lines 98-100)
  changes nothing, and \<open>df[cols]\<close> keeps the columns in the order of the record.\<close>

definition sort_values :: "mapping_row list \<Rightarrow> mapping_row list" where
  "sort_values df = sort_key (\<lambda>r. (Data_Provider r, Display_Name r)) df"

text \<open>The sheets of the workbook (lines 106-111), in the order \<open>to_excel\<close> is called:
  the second only when its table is not empty.\<close>

definition is_calculated_row :: "mapping_row \<Rightarrow> bool" where
  "is_calculated_row r = (Field_Type r \<in> set [''Calculated Field'', ''Report Variable''])"

definition excel_sheets :: "mapping_row list \<Rightarrow> (string \<times> mapping_row list) list" where
  "excel_sheets df =
    (let cf = filter is_calculated_row df
     in [(''All Fields'', df)]
        @ (if cf \<noteq> [] then [(''Calculated Fields'', cf)] else [])
        @ [(''Data Fields'', filter (\<lambda>r. \<not> is_calculated_row r) df)])"

text \<open>\<open>os.path.join(output_dir, name)\<close> for a relative \<open>name\<close> (POSIX).\<close>

definition os_path_join :: "string \<Rightarrow> string \<Rightarrow> string" where
  "os_path_join dir name =
    (if dir = [] \<or> suffix ''/'' dir then dir @ name else dir @ ''/'' @ name)"

text \<open>What a run does: the sink calls that returned, in order, and the exception that
  ended the run, if one did.\<close>

type_synonym outcome = "sink_call list \<times> error option"

text \<open>Calls made one after the other, up to the first that raises.\<close>

fun perform :: "(sink_call \<Rightarrow> error option) \<Rightarrow> sink_call list \<Rightarrow> outcome" where
  "perform snk [] = ([], None)"
| "perform snk (c # cs) =
    (case snk c of
       Some e \<Rightarrow> ([], Some e)
     | None \<Rightarrow> (case perform snk cs of (done, err) \<Rightarrow> (c # done, err)))"

text \<open>
  Step 6 (lines 88-115). Nothing is written for an empty table. The workbook is written
  inside \<open>with pd.ExcelWriter(...) as w\<close>: the writer is closed when the block is left,
  also by an exception, and an exception in the block (or in closing) ends the run
  before the CSV file is written.
\<close>

definition write_outputs :: "env \<Rightarrow> string \<Rightarrow> string \<Rightarrow> mapping_row list \<Rightarrow> outcome" where
  "write_outputs env basename output_dir mappings =
    (if mappings = [] then ([], None)
     else
      (let df = sort_values mappings;
           excel_path = os_path_join output_dir (basename @ ''_field_map.xlsx'');
           csv_path = os_path_join output_dir (basename @ ''_field_map.csv'')
       in case sink env (OpenExcel excel_path) of
            Some e \<Rightarrow> ([], Some e)
          | None \<Rightarrow>
             (case perform (sink env) (map (\<lambda>(name, rows). ToExcel excel_path name rows) (excel_sheets df)) of
                (done, err) \<Rightarrow>
                 (case sink env (CloseExcel excel_path) of
                    Some e \<Rightarrow> (OpenExcel excel_path # done, Some e)
                  | None \<Rightarrow>
                     (case err of
                        Some e \<Rightarrow> (OpenExcel excel_path # done @ [CloseExcel excel_path], Some e)
                      | None \<Rightarrow>
                         (case sink env (ToCsv csv_path df) of
                            Some e \<Rightarrow> (OpenExcel excel_path # done @ [CloseExcel excel_path], Some e)
                          | None \<Rightarrow>
                             (OpenExcel excel_path # done @ [CloseExcel excel_path, ToCsv csv_path df],
                              None)))))))"

text \<open>\<open>extract_field_mappings\<close> (lines 6-117) on the bytes of the container.
  \<open>basename\<close> is the base name the source derives from the path.\<close>

definition extract_field_mappings :: "env \<Rightarrow> string \<Rightarrow> string \<Rightarrow> byte list \<Rightarrow> outcome" where
  "extract_field_mappings env basename output_dir raw =
    (let idx = bytes_find raw zip_signature
     in if idx < 0 then ([], Some ValueError)
        else (case ZipFile env (drop (nat idx) raw) of
                None \<Rightarrow> ([], Some BadZipFile)
              | Some z \<Rightarrow>
                 (case collect_mappings env z of
                    Inl e \<Rightarrow> ([], Some e)
                  | Inr mappings \<Rightarrow> write_outputs env basename output_dir mappings)))"

text \<open>The calls of a run that writes the table \<open>df\<close> and in which every call returns.\<close>

definition calls_for :: "string \<Rightarrow> string \<Rightarrow> mapping_row list \<Rightarrow> sink_call list" where
  "calls_for excel_path csv_path df =
     OpenExcel excel_path # map (\<lambda>(name, rows). ToExcel excel_path name rows) (excel_sheets df)
       @ [CloseExcel excel_path, ToCsv csv_path df]"


section \<open>Invariant of the merged list, and example containers\<close>

text \<open>Every direct-mapping row differs in its technical id from all rows before it.\<close>

definition direct_ids_fresh :: "mapping_row list \<Rightarrow> bool" where
  "direct_ids_fresh ms = (\<forall>j<length ms. Description (ms ! j) = ''Direct mapping'' \<longrightarrow>
      (\<forall>i<j. Technical_ID (ms ! i) \<noteq> Technical_ID (ms ! j)))"

text \<open>The bytes of a string of code points below 256, one byte each (for ASCII this is
  its UTF-8 encoding).\<close>

definition encode_latin1 :: "string \<Rightarrow> byte list" where
  "encode_latin1 s = map (\<lambda>c. of_nat (of_char c)) s"

text \<open>
  The environment of an example: \<open>ZipFile\<close> opens the archive \<open>z\<close> on the bytes \<open>wid\<close>
  (the bytes of a ZIP file with these entries) and raises on other bytes; \<open>decode\<close> is
  CPython's decoder, its code points read as characters (the examples are ASCII);
  \<open>ET.fromstring\<close> is the given function; every sink call returns.
\<close>

definition example_decode :: "encoding \<Rightarrow> byte list \<Rightarrow> error + string" where
  "example_decode enc raw = map_sum id (map char_of) (py_decode enc Ignore raw)"

definition example_env :: "byte list \<Rightarrow> archive \<Rightarrow> (string \<Rightarrow> element option) \<Rightarrow> env" where
  "example_env wid z parse =
     \<lparr>ZipFile = (\<lambda>bs. if bs = wid then Some z else None), decode = example_decode,
      ET_fromstring = parse, sink = (\<lambda>c. None)\<rparr>"

text \<open>One provider whose text is the line \<open>Total = 42, DP1.DO7\<close>.\<close>

definition direct_text :: string where
  "direct_text = ''Total = 42, DP1.DO7''"

definition direct_example :: archive where
  "direct_example =
     [(''Data/DATAPROVIDERS/DP1/'', []),
      (''Data/DATAPROVIDERS/DP1/DP_Generic'', encode_latin1 direct_text)]"

definition direct_wid :: "byte list" where
  "direct_wid = [
      0x50, 0x4B, 0x03, 0x04, 0x14, 0x00, 0x00, 0x00, 0x00, 0x00, 0x00, 0x00, 0x21, 0x50, 0x00, 0x00,
      0x00, 0x00, 0x00, 0x00, 0x00, 0x00, 0x00, 0x00, 0x00, 0x00, 0x17, 0x00, 0x00, 0x00, 0x44, 0x61,
      0x74, 0x61, 0x2F, 0x44, 0x41, 0x54, 0x41, 0x50, 0x52, 0x4F, 0x56, 0x49, 0x44, 0x45, 0x52, 0x53,
      0x2F, 0x44, 0x50, 0x31, 0x2F, 0x50, 0x4B, 0x03, 0x04, 0x14, 0x00, 0x00, 0x00, 0x00, 0x00, 0x00,
      0x00, 0x21, 0x50, 0x4E, 0xF2, 0x6F, 0xDF, 0x13, 0x00, 0x00, 0x00, 0x13, 0x00, 0x00, 0x00, 0x21,
      0x00, 0x00, 0x00, 0x44, 0x61, 0x74, 0x61, 0x2F, 0x44, 0x41, 0x54, 0x41, 0x50, 0x52, 0x4F, 0x56,
      0x49, 0x44, 0x45, 0x52, 0x53, 0x2F, 0x44, 0x50, 0x31, 0x2F, 0x44, 0x50, 0x5F, 0x47, 0x65, 0x6E,
      0x65, 0x72, 0x69, 0x63, 0x54, 0x6F, 0x74, 0x61, 0x6C, 0x20, 0x3D, 0x20, 0x34, 0x32, 0x2C, 0x20,
      0x44, 0x50, 0x31, 0x2E, 0x44, 0x4F, 0x37, 0x50, 0x4B, 0x01, 0x02, 0x14, 0x00, 0x14, 0x00, 0x00,
      0x00, 0x00, 0x00, 0x00, 0x00, 0x21, 0x50, 0x00, 0x00, 0x00, 0x00, 0x00, 0x00, 0x00, 0x00, 0x00,
      0x00, 0x00, 0x00, 0x17, 0x00, 0x00, 0x00, 0x00, 0x00, 0x00, 0x00, 0x00, 0x00, 0x00, 0x00, 0x80,
      0x01, 0x00, 0x00, 0x00, 0x00, 0x44, 0x61, 0x74, 0x61, 0x2F, 0x44, 0x41, 0x54, 0x41, 0x50, 0x52,
      0x4F, 0x56, 0x49, 0x44, 0x45, 0x52, 0x53, 0x2F, 0x44, 0x50, 0x31, 0x2F, 0x50, 0x4B, 0x01, 0x02,
      0x14, 0x00, 0x14, 0x00, 0x00, 0x00, 0x00, 0x00, 0x00, 0x00, 0x21, 0x50, 0x4E, 0xF2, 0x6F, 0xDF,
      0x13, 0x00, 0x00, 0x00, 0x13, 0x00, 0x00, 0x00, 0x21, 0x00, 0x00, 0x00, 0x00, 0x00, 0x00, 0x00,
      0x00, 0x00, 0x00, 0x00, 0x80, 0x01, 0x35, 0x00, 0x00, 0x00, 0x44, 0x61, 0x74, 0x61, 0x2F, 0x44,
      0x41, 0x54, 0x41, 0x50, 0x52, 0x4F, 0x56, 0x49, 0x44, 0x45, 0x52, 0x53, 0x2F, 0x44, 0x50, 0x31,
      0x2F, 0x44, 0x50, 0x5F, 0x47, 0x65, 0x6E, 0x65, 0x72, 0x69, 0x63, 0x50, 0x4B, 0x05, 0x06, 0x00,
      0x00, 0x00, 0x00, 0x02, 0x00, 0x02, 0x00, 0x94, 0x00, 0x00, 0x00, 0x87, 0x00, 0x00, 0x00, 0x00,
      0x00]"

definition direct_example_row :: "string \<Rightarrow> string \<Rightarrow> mapping_row" where
  "direct_example_row dp_id dp_name =
     \<lparr>Data_Provider_ID = dp_id, Data_Provider = dp_name, Technical_ID = ''DP1.DO7'',
      Display_Name = ''Total'', Field_Type = ''Data Field'', Formula = [],
      Description = ''Direct mapping'', Sample_Value = ''42'', Databricks_Table = [],
      Databricks_Column = ''total'', XML_ID = []\<rparr>"

text \<open>One provider whose text is a query specification with one object.\<close>

definition xml_text :: string where
  \<open>xml_text = ''<QuerySpec><object id="F1" name="Revenue" expression="SUM(X)"/></QuerySpec>''\<close>

definition xml_tree :: element where
  "xml_tree = Element ''QuerySpec'' []
     [Element ''object'' [(''id'', ''F1''), (''name'', ''Revenue''), (''expression'', ''SUM(X)'')] []]"

definition xml_parse :: "string \<Rightarrow> element option" where
  "xml_parse s = (if s = xml_text then Some xml_tree else None)"

definition xml_example :: archive where
  "xml_example =
     [(''Data/DATAPROVIDERS/DP1/'', []),
      (''Data/DATAPROVIDERS/DP1/DP_Generic'', encode_latin1 xml_text)]"

definition xml_wid :: "byte list" where
  "xml_wid = [
      0x50, 0x4B, 0x03, 0x04, 0x14, 0x00, 0x00, 0x00, 0x00, 0x00, 0x00, 0x00, 0x21, 0x50, 0x00, 0x00,
      0x00, 0x00, 0x00, 0x00, 0x00, 0x00, 0x00, 0x00, 0x00, 0x00, 0x17, 0x00, 0x00, 0x00, 0x44, 0x61,
      0x74, 0x61, 0x2F, 0x44, 0x41, 0x54, 0x41, 0x50, 0x52, 0x4F, 0x56, 0x49, 0x44, 0x45, 0x52, 0x53,
      0x2F, 0x44, 0x50, 0x31, 0x2F, 0x50, 0x4B, 0x03, 0x04, 0x14, 0x00, 0x00, 0x00, 0x00, 0x00, 0x00,
      0x00, 0x21, 0x50, 0x24, 0x3C, 0x20, 0xEB, 0x4B, 0x00, 0x00, 0x00, 0x4B, 0x00, 0x00, 0x00, 0x21,
      0x00, 0x00, 0x00, 0x44, 0x61, 0x74, 0x61, 0x2F, 0x44, 0x41, 0x54, 0x41, 0x50, 0x52, 0x4F, 0x56,
      0x49, 0x44, 0x45, 0x52, 0x53, 0x2F, 0x44, 0x50, 0x31, 0x2F, 0x44, 0x50, 0x5F, 0x47, 0x65, 0x6E,
      0x65, 0x72, 0x69, 0x63, 0x3C, 0x51, 0x75, 0x65, 0x72, 0x79, 0x53, 0x70, 0x65, 0x63, 0x3E, 0x3C,
      0x6F, 0x62, 0x6A, 0x65, 0x63, 0x74, 0x20, 0x69, 0x64, 0x3D, 0x22, 0x46, 0x31, 0x22, 0x20, 0x6E,
      0x61, 0x6D, 0x65, 0x3D, 0x22, 0x52, 0x65, 0x76, 0x65, 0x6E, 0x75, 0x65, 0x22, 0x20, 0x65, 0x78,
      0x70, 0x72, 0x65, 0x73, 0x73, 0x69, 0x6F, 0x6E, 0x3D, 0x22, 0x53, 0x55, 0x4D, 0x28, 0x58, 0x29,
      0x22, 0x2F, 0x3E, 0x3C, 0x2F, 0x51, 0x75, 0x65, 0x72, 0x79, 0x53, 0x70, 0x65, 0x63, 0x3E, 0x50,
      0x4B, 0x01, 0x02, 0x14, 0x00, 0x14, 0x00, 0x00, 0x00, 0x00, 0x00, 0x00, 0x00, 0x21, 0x50, 0x00,
      0x00, 0x00, 0x00, 0x00, 0x00, 0x00, 0x00, 0x00, 0x00, 0x00, 0x00, 0x17, 0x00, 0x00, 0x00, 0x00,
      0x00, 0x00, 0x00, 0x00, 0x00, 0x00, 0x00, 0x80, 0x01, 0x00, 0x00, 0x00, 0x00, 0x44, 0x61, 0x74,
      0x61, 0x2F, 0x44, 0x41, 0x54, 0x41, 0x50, 0x52, 0x4F, 0x56, 0x49, 0x44, 0x45, 0x52, 0x53, 0x2F,
      0x44, 0x50, 0x31, 0x2F, 0x50, 0x4B, 0x01, 0x02, 0x14, 0x00, 0x14, 0x00, 0x00, 0x00, 0x00, 0x00,
      0x00, 0x00, 0x21, 0x50, 0x24, 0x3C, 0x20, 0xEB, 0x4B, 0x00, 0x00, 0x00, 0x4B, 0x00, 0x00, 0x00,
      0x21, 0x00, 0x00, 0x00, 0x00, 0x00, 0x00, 0x00, 0x00, 0x00, 0x00, 0x00, 0x80, 0x01, 0x35, 0x00,
      0x00, 0x00, 0x44, 0x61, 0x74, 0x61, 0x2F, 0x44, 0x41, 0x54, 0x41, 0x50, 0x52, 0x4F, 0x56, 0x49,
      0x44, 0x45, 0x52, 0x53, 0x2F, 0x44, 0x50, 0x31, 0x2F, 0x44, 0x50, 0x5F, 0x47, 0x65, 0x6E, 0x65,
      0x72, 0x69, 0x63, 0x50, 0x4B, 0x05, 0x06, 0x00, 0x00, 0x00, 0x00, 0x02, 0x00, 0x02, 0x00, 0x94,
      0x00, 0x00, 0x00, 0xBF, 0x00, 0x00, 0x00, 0x00, 0x00]"

definition xml_field_row :: mapping_row where
  "xml_field_row =
     \<lparr>Data_Provider_ID = ''DP1'', Data_Provider = ''DP1'', Technical_ID = ''F1'',
      Display_Name = ''Revenue'', Field_Type = ''Calculated Field'', Formula = ''SUM(X)'',
      Description = ''object, type='', Sample_Value = [], Databricks_Table = [],
      Databricks_Column = ''revenue'', XML_ID = ''F1''\<rparr>"

definition xml_formula_row :: mapping_row where
  "xml_formula_row =
     \<lparr>Data_Provider_ID = ''DP1'', Data_Provider = ''DP1'', Technical_ID = ''DP1_FORM_0'',
      Display_Name = ''Formula DP1_FORM_0'', Field_Type = ''Data Provider Formula'',
      Formula = ''SUM(X)'', Description = ''From DP_Generic'', Sample_Value = [],
      Databricks_Table = [], Databricks_Column = ''formuladp1form0'', XML_ID = []\<rparr>"

text \<open>Two providers: the text of the second assigns to \<open>DP1.DO7\<close>, which the first has
  captured, and mentions \<open>DP2.DO9\<close>.\<close>

definition second_text :: string where
  "second_text = ''Sum = 1, DP1.DO7 DP2.DO9''"

definition two_example :: archive where
  "two_example =
     [(''Data/DATAPROVIDERS/DP1/'', []),
      (''Data/DATAPROVIDERS/DP1/DP_Generic'', encode_latin1 direct_text),
      (''Data/DATAPROVIDERS/DP2/'', []),
      (''Data/DATAPROVIDERS/DP2/DP_Generic'', encode_latin1 second_text)]"

definition two_wid :: "byte list" where
  "two_wid = [
      0x50, 0x4B, 0x03, 0x04, 0x14, 0x00, 0x00, 0x00, 0x00, 0x00, 0x00, 0x00, 0x21, 0x50, 0x00, 0x00,
      0x00, 0x00, 0x00, 0x00, 0x00, 0x00, 0x00, 0x00, 0x00, 0x00, 0x17, 0x00, 0x00, 0x00, 0x44, 0x61,
      0x74, 0x61, 0x2F, 0x44, 0x41, 0x54, 0x41, 0x50, 0x52, 0x4F, 0x56, 0x49, 0x44, 0x45, 0x52, 0x53,
      0x2F, 0x44, 0x50, 0x31, 0x2F, 0x50, 0x4B, 0x03, 0x04, 0x14, 0x00, 0x00, 0x00, 0x00, 0x00, 0x00,
      0x00, 0x21, 0x50, 0x4E, 0xF2, 0x6F, 0xDF, 0x13, 0x00, 0x00, 0x00, 0x13, 0x00, 0x00, 0x00, 0x21,
      0x00, 0x00, 0x00, 0x44, 0x61, 0x74, 0x61, 0x2F, 0x44, 0x41, 0x54, 0x41, 0x50, 0x52, 0x4F, 0x56,
      0x49, 0x44, 0x45, 0x52, 0x53, 0x2F, 0x44, 0x50, 0x31, 0x2F, 0x44, 0x50, 0x5F, 0x47, 0x65, 0x6E,
      0x65, 0x72, 0x69, 0x63, 0x54, 0x6F, 0x74, 0x61, 0x6C, 0x20, 0x3D, 0x20, 0x34, 0x32, 0x2C, 0x20,
      0x44, 0x50, 0x31, 0x2E, 0x44, 0x4F, 0x37, 0x50, 0x4B, 0x03, 0x04, 0x14, 0x00, 0x00, 0x00, 0x00,
      0x00, 0x00, 0x00, 0x21, 0x50, 0x00, 0x00, 0x00, 0x00, 0x00, 0x00, 0x00, 0x00, 0x00, 0x00, 0x00,
      0x00, 0x17, 0x00, 0x00, 0x00, 0x44, 0x61, 0x74, 0x61, 0x2F, 0x44, 0x41, 0x54, 0x41, 0x50, 0x52,
      0x4F, 0x56, 0x49, 0x44, 0x45, 0x52, 0x53, 0x2F, 0x44, 0x50, 0x32, 0x2F, 0x50, 0x4B, 0x03, 0x04,
      0x14, 0x00, 0x00, 0x00, 0x00, 0x00, 0x00, 0x00, 0x21, 0x50, 0xDD, 0x07, 0xC1, 0xCC, 0x18, 0x00,
      0x00, 0x00, 0x18, 0x00, 0x00, 0x00, 0x21, 0x00, 0x00, 0x00, 0x44, 0x61, 0x74, 0x61, 0x2F, 0x44,
      0x41, 0x54, 0x41, 0x50, 0x52, 0x4F, 0x56, 0x49, 0x44, 0x45, 0x52, 0x53, 0x2F, 0x44, 0x50, 0x32,
      0x2F, 0x44, 0x50, 0x5F, 0x47, 0x65, 0x6E, 0x65, 0x72, 0x69, 0x63, 0x53, 0x75, 0x6D, 0x20, 0x3D,
      0x20, 0x31, 0x2C, 0x20, 0x44, 0x50, 0x31, 0x2E, 0x44, 0x4F, 0x37, 0x20, 0x44, 0x50, 0x32, 0x2E,
      0x44, 0x4F, 0x39, 0x50, 0x4B, 0x01, 0x02, 0x14, 0x00, 0x14, 0x00, 0x00, 0x00, 0x00, 0x00, 0x00,
      0x00, 0x21, 0x50, 0x00, 0x00, 0x00, 0x00, 0x00, 0x00, 0x00, 0x00, 0x00, 0x00, 0x00, 0x00, 0x17,
      0x00, 0x00, 0x00, 0x00, 0x00, 0x00, 0x00, 0x00, 0x00, 0x00, 0x00, 0x80, 0x01, 0x00, 0x00, 0x00,
      0x00, 0x44, 0x61, 0x74, 0x61, 0x2F, 0x44, 0x41, 0x54, 0x41, 0x50, 0x52, 0x4F, 0x56, 0x49, 0x44,
      0x45, 0x52, 0x53, 0x2F, 0x44, 0x50, 0x31, 0x2F, 0x50, 0x4B, 0x01, 0x02, 0x14, 0x00, 0x14, 0x00,
      0x00, 0x00, 0x00, 0x00, 0x00, 0x00, 0x21, 0x50, 0x4E, 0xF2, 0x6F, 0xDF, 0x13, 0x00, 0x00, 0x00,
      0x13, 0x00, 0x00, 0x00, 0x21, 0x00, 0x00, 0x00, 0x00, 0x00, 0x00, 0x00, 0x00, 0x00, 0x00, 0x00,
      0x80, 0x01, 0x35, 0x00, 0x00, 0x00, 0x44, 0x61, 0x74, 0x61, 0x2F, 0x44, 0x41, 0x54, 0x41, 0x50,
      0x52, 0x4F, 0x56, 0x49, 0x44, 0x45, 0x52, 0x53, 0x2F, 0x44, 0x50, 0x31, 0x2F, 0x44, 0x50, 0x5F,
      0x47, 0x65, 0x6E, 0x65, 0x72, 0x69, 0x63, 0x50, 0x4B, 0x01, 0x02, 0x14, 0x00, 0x14, 0x00, 0x00,
      0x00, 0x00, 0x00, 0x00, 0x00, 0x21, 0x50, 0x00, 0x00, 0x00, 0x00, 0x00, 0x00, 0x00, 0x00, 0x00,
      0x00, 0x00, 0x00, 0x17, 0x00, 0x00, 0x00, 0x00, 0x00, 0x00, 0x00, 0x00, 0x00, 0x00, 0x00, 0x80,
      0x01, 0x87, 0x00, 0x00, 0x00, 0x44, 0x61, 0x74, 0x61, 0x2F, 0x44, 0x41, 0x54, 0x41, 0x50, 0x52,
      0x4F, 0x56, 0x49, 0x44, 0x45, 0x52, 0x53, 0x2F, 0x44, 0x50, 0x32, 0x2F, 0x50, 0x4B, 0x01, 0x02,
      0x14, 0x00, 0x14, 0x00, 0x00, 0x00, 0x00, 0x00, 0x00, 0x00, 0x21, 0x50, 0xDD, 0x07, 0xC1, 0xCC,
      0x18, 0x00, 0x00, 0x00, 0x18, 0x00, 0x00, 0x00, 0x21, 0x00, 0x00, 0x00, 0x00, 0x00, 0x00, 0x00,
      0x00, 0x00, 0x00, 0x00, 0x80, 0x01, 0xBC, 0x00, 0x00, 0x00, 0x44, 0x61, 0x74, 0x61, 0x2F, 0x44,
      0x41, 0x54, 0x41, 0x50, 0x52, 0x4F, 0x56, 0x49, 0x44, 0x45, 0x52, 0x53, 0x2F, 0x44, 0x50, 0x32,
      0x2F, 0x44, 0x50, 0x5F, 0x47, 0x65, 0x6E, 0x65, 0x72, 0x69, 0x63, 0x50, 0x4B, 0x05, 0x06, 0x00,
      0x00, 0x00, 0x00, 0x04, 0x00, 0x04, 0x00, 0x28, 0x01, 0x00, 0x00, 0x13, 0x01, 0x00, 0x00, 0x00,
      0x00]"

definition second_example_row :: mapping_row where
  "second_example_row =
     \<lparr>Data_Provider_ID = ''DP2'', Data_Provider = ''DP2'', Technical_ID = ''DP2.DO9'',
      Display_Name = [], Field_Type = ''Data Field'', Formula = [],
      Description = ''Direct mapping'', Sample_Value = [], Databricks_Table = [],
      Databricks_Column = ''dp2do9'', XML_ID = []\<rparr>"


section \<open>Evaluating \<open>lower\<close> and \<open>upper\<close>\<close>

text \<open>Adding 32 to a capital sets bit 5 of its code, which is clear; subtracting 32 from
  a small letter clears it. These equations evaluate \<open>lower_char\<close> and \<open>upper_char\<close>
  without arithmetic.\<close>

lemma lower_char_code [code]:
  "lower_char (Char b0 b1 b2 b3 b4 b5 b6 b7) =
     (if is_AZ (Char b0 b1 b2 b3 b4 b5 b6 b7)
         \<or> (CHR 0xC0 \<le> Char b0 b1 b2 b3 b4 b5 b6 b7 \<and> Char b0 b1 b2 b3 b4 b5 b6 b7 \<le> CHR 0xD6)
         \<or> (CHR 0xD8 \<le> Char b0 b1 b2 b3 b4 b5 b6 b7 \<and> Char b0 b1 b2 b3 b4 b5 b6 b7 \<le> CHR 0xDE)
      then Char b0 b1 b2 b3 b4 True b6 b7 else Char b0 b1 b2 b3 b4 b5 b6 b7)"
  by (cases b0; cases b1; cases b2; cases b3; cases b4; cases b5; cases b6; cases b7;
      simp add: lower_char_def is_AZ_def char_of_def bit_0)

lemma upper_char_code [code]:
  "upper_char (Char b0 b1 b2 b3 b4 b5 b6 b7) =
     (if Char b0 b1 b2 b3 b4 b5 b6 b7 = CHR 0xDF then ''SS''
      else if is_az (Char b0 b1 b2 b3 b4 b5 b6 b7)
         \<or> (CHR 0xE0 \<le> Char b0 b1 b2 b3 b4 b5 b6 b7 \<and> Char b0 b1 b2 b3 b4 b5 b6 b7 \<le> CHR 0xF6)
         \<or> (CHR 0xF8 \<le> Char b0 b1 b2 b3 b4 b5 b6 b7 \<and> Char b0 b1 b2 b3 b4 b5 b6 b7 \<le> CHR 0xFE)
      then [Char b0 b1 b2 b3 b4 False b6 b7] else [Char b0 b1 b2 b3 b4 b5 b6 b7])"
  by (cases b0; cases b1; cases b2; cases b3; cases b4; cases b5; cases b6; cases b7;
      simp add: upper_char_def is_az_def char_of_def bit_0)

section \<open>Properties of the Column Normalizer\<close>

lemma us_not_space: "\<not> is_space CHR ''_''"
  by (simp add: is_space_def)

lemma us_not_keep: "\<not> keep_char CHR ''_''"
  by (simp add: keep_char_def is_space_def is_AZ_def is_az_def is_09_def)

lemma az_09_not_space: "is_az c \<or> is_09 c \<Longrightarrow> \<not> is_space c"
  by (auto simp: is_space_def is_az_def is_09_def less_eq_char_def)

lemma az_09_not_us: "is_az c \<or> is_09 c \<Longrightarrow> c \<noteq> CHR ''_''"
  by (auto simp: is_az_def is_09_def less_eq_char_def)

lemma az_09_lower: "is_az c \<or> is_09 c \<Longrightarrow> lower_char c = c"
  by (auto simp: lower_char_def is_AZ_def is_az_def is_09_def less_eq_char_def)

lemma us_lower: "lower_char CHR ''_'' = CHR ''_''"
  by (simp add: lower_char_def is_AZ_def)

lemma AZ_lower: "is_AZ c \<Longrightarrow> is_az (lower_char c)"
  by (auto simp: lower_char_def is_AZ_def is_az_def less_eq_char_def)

lemma is_09_not_alpha: "is_09 c \<Longrightarrow> \<not> py_isalpha c"
  by (auto simp: py_isalpha_def is_AZ_def is_az_def is_09_def less_eq_char_def)

lemma is_az_alpha: "is_az c \<Longrightarrow> py_isalpha c"
  by (simp add: py_isalpha_def)

lemma sub_ws_runs_id: "\<forall>c\<in>set s. \<not> is_space c \<Longrightarrow> sub_ws_runs s = s"
  by (induction s) auto

lemma sub_ws_runs_chars:
  "\<forall>c\<in>set s. keep_char c \<Longrightarrow> \<forall>c\<in>set (sub_ws_runs s). is_AZ c \<or> is_az c \<or> is_09 c \<or> c = CHR ''_''"
proof (induction s rule: sub_ws_runs.induct)
  case 1
  then show ?case by simp
next
  case (2 c cs)
  show ?case
  proof (cases "is_space c")
    case True
    have "\<forall>c\<in>set (dropWhile is_space cs). keep_char c"
      using "2.prems" by (auto dest: set_dropWhileD)
    with 2 True show ?thesis by simp
  next
    case False
    with 2 show ?thesis by (auto simp: keep_char_def)
  qed
qed


lemma last_dropWhile_suffix: "dropWhile P xs \<noteq> [] \<Longrightarrow> last (dropWhile P xs) = last xs"
  by (induction xs) (auto split: if_splits)

lemma strip_where_hd: "strip_where P s \<noteq> [] \<Longrightarrow> \<not> P (hd (strip_where P s))"
proof -
  assume ne: "strip_where P s \<noteq> []"
  define d where "d = dropWhile P s"
  define e where "e = dropWhile P (rev d)"
  have t: "strip_where P s = rev e" by (simp add: strip_where_def d_def e_def)
  with ne have e: "e \<noteq> []" by simp
  then have d: "d \<noteq> []" by (auto simp: e_def)
  have "hd (rev e) = last e" using e by (simp add: hd_rev)
  also have "\<dots> = last (rev d)" using e unfolding e_def by (rule last_dropWhile_suffix)
  also have "\<dots> = hd d" using d by (simp add: last_rev)
  finally have "hd (strip_where P s) = hd d" by (simp add: t)
  moreover have "\<not> P (hd d)" using d unfolding d_def by (rule hd_dropWhile)
  ultimately show ?thesis by simp
qed

lemma strip_where_set: "set (strip_where P s) \<subseteq> set s"
  by (auto simp: strip_where_def dest!: set_dropWhileD)

lemma strip_where_id: "\<forall>c\<in>set s. \<not> P c \<Longrightarrow> strip_where P s = s"
proof -
  assume a: "\<forall>c\<in>set s. \<not> P c"
  then have "dropWhile P s = s" by (cases s) auto
  moreover from a have "dropWhile P (rev s) = rev s" by (cases "rev s") (auto simp: dropWhile_eq_self_iff)
  ultimately show ?thesis by (simp add: strip_where_def)
qed

lemma clean_norm: "norm_chars (clean_column_name s)"
proof -
  define t where "t = py_lower (py_strip_chars ''_'' (sub_ws_runs (filter keep_char s)))"
  define w where "w = py_strip_chars ''_'' (sub_ws_runs (filter keep_char s))"
  have w_chars: "\<forall>c\<in>set w. is_AZ c \<or> is_az c \<or> is_09 c \<or> c = CHR ''_''"
    using sub_ws_runs_chars [of "filter keep_char s"] strip_where_set [of _ "sub_ws_runs (filter keep_char s)"]
    unfolding w_def py_strip_chars_def by fastforce
  have t_w: "t = map lower_char w" by (simp add: t_def w_def py_lower_def)
  have t_chars: "\<forall>c\<in>set t. is_az c \<or> is_09 c \<or> c = CHR ''_''"
    using w_chars unfolding t_w by (auto simp: AZ_lower az_09_lower us_lower)
  have t_hd: "is_az (hd t) \<or> is_09 (hd t)" if "t \<noteq> []"
  proof -
    from that have wne: "w \<noteq> []" by (simp add: t_w)
    then have "hd w \<noteq> CHR ''_''"
      using strip_where_hd [of "\<lambda>c. c \<in> set ''_''" "sub_ws_runs (filter keep_char s)"]
      unfolding w_def py_strip_chars_def by auto
    moreover have "hd w \<in> set w" using wne by simp
    ultimately have "is_AZ (hd w) \<or> is_az (hd w) \<or> is_09 (hd w)" using w_chars by blast
    moreover have "hd t = lower_char (hd w)" using wne by (simp add: t_w hd_map)
    ultimately show ?thesis by (auto simp: AZ_lower az_09_lower)
  qed
  have c: "clean_column_name s = (if t \<noteq> [] \<and> \<not> py_isalpha (hd t) then ''f_'' @ t else t)"
    by (simp add: clean_column_name_def t_def Let_def)
  show ?thesis
  proof (cases "t \<noteq> [] \<and> \<not> py_isalpha (hd t)")
    case True
    then have "clean_column_name s = ''f_'' @ t" using c by simp
    then show ?thesis using t_chars by (simp add: norm_chars_def list_all_iff is_az_def)
  next
    case False
    then have e: "clean_column_name s = t" using c by simp
    have "t = [] \<or> is_az (hd t)"
      using False t_hd is_09_not_alpha by blast
    then show ?thesis using t_chars by (simp add: e norm_chars_def list_all_iff)
  qed
qed

lemma clean_of_norm:
  assumes "norm_chars u"
  shows "clean_column_name u = filter (\<lambda>c. c \<noteq> CHR ''_'') u"
proof -
  define v where "v = filter (\<lambda>c. c \<noteq> CHR ''_'') u"
  have u_chars: "\<forall>c\<in>set u. is_az c \<or> is_09 c \<or> c = CHR ''_''"
    using assms by (simp add: norm_chars_def list_all_iff)
  have keep: "keep_char c \<longleftrightarrow> c \<noteq> CHR ''_''" if "c \<in> set u" for c
  proof (cases "c = CHR ''_''")
    case True
    then show ?thesis by (simp add: us_not_keep)
  next
    case False
    with u_chars that have "is_az c \<or> is_09 c" by blast
    then show ?thesis using False by (auto simp: keep_char_def)
  qed
  have "filter keep_char u = v"
    unfolding v_def by (rule filter_cong) (simp_all add: keep)
  moreover have v_chars: "\<forall>c\<in>set v. is_az c \<or> is_09 c"
    using u_chars by (auto simp: v_def)
  then have "sub_ws_runs v = v"
    using az_09_not_space by (intro sub_ws_runs_id) blast
  moreover have "py_strip_chars ''_'' v = v"
    unfolding py_strip_chars_def by (rule strip_where_id) (simp add: v_def)
  moreover have "py_lower v = v"
    unfolding py_lower_def using v_chars by (simp add: map_idI az_09_lower)
  moreover have "v = [] \<or> py_isalpha (hd v)"
  proof (cases u)
    case Nil
    then show ?thesis by (simp add: v_def)
  next
    case (Cons a u')
    with assms have "is_az a" by (simp add: norm_chars_def)
    then have "hd v = a" using az_09_not_us [of a] by (simp add: v_def Cons)
    then show ?thesis using \<open>is_az a\<close> by (simp add: is_az_alpha)
  qed
  ultimately show ?thesis
    by (auto simp: clean_column_name_def Let_def v_def)
qed


text \<open>
  Claim C3 (as amended). Normalising a name a second time deletes the underscores of
  the normalised name: \<open>clean(clean(s))\<close> is \<open>clean(s)\<close> without its underscores, because
  the first substitution removes every character outside \<open>[A-Za-z0-9\s]\<close> and the
  underscore is outside it. So the normalizer is idempotent only from the second
  application on (\<open>clean(clean(clean(s))) = clean(clean(s))\<close>), and on a name whose
  normal form has no underscore. The three concrete cases of the claim hold.
\<close>

theorem C3_normalizer_reapplied_drops_underscores:
  "clean_column_name (clean_column_name s)
      = filter (\<lambda>c. c \<noteq> CHR ''_'') (clean_column_name s)
   \<and> clean_column_name (clean_column_name (clean_column_name s))
      = clean_column_name (clean_column_name s)
   \<and> clean_column_name ''Sales $ Amount 2024'' = ''sales_amount_2024''
   \<and> clean_column_name ''123abc'' = ''f_123abc''
   \<and> clean_column_name [] = []"
proof -
  have twice: "clean_column_name (clean_column_name t)
      = filter (\<lambda>c. c \<noteq> CHR ''_'') (clean_column_name t)" for t
    by (rule clean_of_norm) (rule clean_norm)
  have "clean_column_name (clean_column_name (clean_column_name s))
      = filter (\<lambda>c. c \<noteq> CHR ''_'') (clean_column_name (clean_column_name s))"
    by (rule twice)
  also have "\<dots> = clean_column_name (clean_column_name s)"
    by (simp add: twice [of s])
  finally have thrice: "clean_column_name (clean_column_name (clean_column_name s))
      = clean_column_name (clean_column_name s)" .
  have a: "clean_column_name ''Sales $ Amount 2024'' = ''sales_amount_2024''"
    by code_simp
  have b: "clean_column_name ''123abc'' = ''f_123abc''"
    by code_simp
  have c: "clean_column_name [] = []"
    by code_simp
  show ?thesis using twice [of s] thrice a b c by blast
qed

text \<open>
  The claim as stated (idempotence for every string) fails on its own second example:
  \<open>clean("123abc")\<close> is \<open>f_123abc\<close>, and \<open>clean("f_123abc")\<close> is \<open>f123abc\<close>.
\<close>

theorem C3_not_idempotent:
  "clean_column_name (clean_column_name ''123abc'') \<noteq> clean_column_name ''123abc''"
  by code_simp


section \<open>Properties of the Text Decoder\<close>

lemma utf8_ignore_total: "\<exists>t. utf8_decode Ignore bs = Inr t"
proof (induction "Ignore" bs rule: utf8_decode.induct)
  case 1
  then show ?case by simp
next
  case (2 b bs)
  show ?case
  proof (cases "utf8_step (b # bs)")
    case (Decoded cp n)
    from 2(1) [OF Decoded] obtain t where "utf8_decode Ignore (drop (n - 1) bs) = Inr t" ..
    with Decoded show ?thesis by (simp del: utf8_step.simps)
  next
    case (Invalid n)
    from 2(2) [OF Invalid] obtain t where "utf8_decode Ignore (drop (n - 1) bs) = Inr t" ..
    with Invalid show ?thesis by (simp add: on_error_def del: utf8_step.simps)
  qed
qed

lemma py_decode_utf8: "py_decode UTF8 h raw = utf8_decode h (map unat raw)"
  by (simp add: py_decode_def)

lemma py_decode_utf16le: "py_decode UTF16LE h raw = utf16le_decode h (map unat raw)"
  by (simp add: py_decode_def)

lemma py_decode_utf8_ignore_total: "\<exists>t. py_decode UTF8 Ignore raw = Inr t"
  unfolding py_decode_utf8 by (rule utf8_ignore_total)

text \<open>The first attempt of the loop cannot raise, so the loop never reaches the second.\<close>

lemma decode_text_utf8: "decode_text raw = py_decode UTF8 Ignore raw"
proof -
  obtain t where t: "py_decode UTF8 Ignore raw = Inr t"
    using py_decode_utf8_ignore_total by blast
  then have "try_decodings (\<lambda>enc. py_decode enc Ignore) [UTF8, UTF16LE, Latin1] raw = Some t" by simp
  then show ?thesis by (simp add: decode_text_def t)
qed

lemma utf16_text_bytes: "map unat [0x41, 0, 0x42, 0, 0xE9, 0 :: byte] = [65, 0, 66, 0, 233, 0]"
  by simp

lemma utf16_text_as_utf8_ignore: "utf8_decode Ignore [65, 0, 66, 0, 233, 0] = Inr [65, 0, 66, 0, 0]"
  by (simp add: on_error_def is_cont_def)

lemma utf16_text_as_utf8_strict: "utf8_decode Strict [65, 0, 66, 0, 233, 0] = Inl UnicodeDecodeError"
  by (simp add: on_error_def is_cont_def)

lemma utf16_text_as_utf16: "utf16le_decode Strict [65, 0, 66, 0, 233, 0] = Inr [65, 66, 233]"
  by simp

text \<open>
  Claim C5. The loop is written to fall back from UTF-8 to UTF-16 little-endian and to
  Latin-1, but it decodes with \<open>errors='ignore'\<close>, which cannot raise: the UTF-8 attempt
  always returns, bytes that are not UTF-8 are dropped (not replaced), and no other
  encoding is tried. On the UTF-16 little-endian bytes of \<open>AB\<close> followed by e-acute,
  \<open>41 00 42 00 E9 00\<close>, the loop returns the five code points \<open>65 0 66 0 0\<close>:
  strict UTF-8 rejects these bytes, and UTF-16 little-endian, the next in the priority
  order, decodes them to the three code points \<open>65 66 233\<close>.
\<close>

theorem C5_fallback_is_never_taken:
  "decode_text [0x41, 0, 0x42, 0, 0xE9, 0] = Inr [65, 0, 66, 0, 0]
   \<and> py_decode UTF8 Strict [0x41, 0, 0x42, 0, 0xE9, 0] = Inl UnicodeDecodeError
   \<and> py_decode UTF16LE Strict [0x41, 0, 0x42, 0, 0xE9, 0] = Inr [65, 66, 233]"
proof -
  have a: "decode_text [0x41, 0, 0x42, 0, 0xE9, 0] = Inr [65, 0, 66, 0, 0]"
    unfolding decode_text_utf8 py_decode_utf8 utf16_text_bytes by (rule utf16_text_as_utf8_ignore)
  have b: "py_decode UTF8 Strict [0x41, 0, 0x42, 0, 0xE9, 0] = Inl UnicodeDecodeError"
    unfolding py_decode_utf8 utf16_text_bytes by (rule utf16_text_as_utf8_strict)
  have c: "py_decode UTF16LE Strict [0x41, 0, 0x42, 0, 0xE9, 0] = Inr [65, 66, 233]"
    unfolding py_decode_utf16le utf16_text_bytes by (rule utf16_text_as_utf16)
  from a b c show ?thesis by (intro conjI)
qed


section \<open>Properties of the Archive Locator\<close>

lemma find_sub_None: "find_sub pat xs = None \<longleftrightarrow> (\<forall>i. \<not> prefix pat (drop i xs))"
proof (induction xs)
  case Nil
  then show ?case by auto
next
  case (Cons x xs)
  show ?case
  proof (cases "prefix pat (x # xs)")
    case True
    then have "prefix pat (drop 0 (x # xs))" by simp
    then have "\<exists>i. prefix pat (drop i (x # xs))" by (rule exI)
    with True show ?thesis by simp
  next
    case False
    have "(\<forall>i. \<not> prefix pat (drop i (x # xs))) \<longleftrightarrow> (\<forall>i. \<not> prefix pat (drop i xs))"
    proof
      assume a: "\<forall>i. \<not> prefix pat (drop i (x # xs))"
      show "\<forall>i. \<not> prefix pat (drop i xs)"
      proof
        fix i from a have "\<not> prefix pat (drop (Suc i) (x # xs))" by blast
        then show "\<not> prefix pat (drop i xs)" by simp
      qed
    next
      assume a: "\<forall>i. \<not> prefix pat (drop i xs)"
      show "\<forall>i. \<not> prefix pat (drop i (x # xs))"
      proof
        fix i show "\<not> prefix pat (drop i (x # xs))"
          using a False by (cases i) auto
      qed
    qed
    with False Cons show ?thesis by simp
  qed
qed

lemma find_sub_Some:
  "find_sub pat xs = Some i \<longleftrightarrow>
     (prefix pat (drop i xs) \<and> i \<le> length xs \<and> (\<forall>j<i. \<not> prefix pat (drop j xs)))"
proof (induction xs arbitrary: i)
  case Nil
  then show ?case by auto
next
  case (Cons x xs)
  show ?case
  proof (cases "prefix pat (x # xs)")
    case True
    show ?thesis
    proof (cases i)
      case 0
      with True show ?thesis by simp
    next
      case (Suc k)
      have "\<not> (\<forall>j<Suc k. \<not> prefix pat (drop j (x # xs)))"
        using True by (auto intro: exI [of _ 0])
      with True Suc show ?thesis by simp
    qed
  next
    case False
    show ?thesis
    proof (cases i)
      case 0
      with False show ?thesis by simp
    next
      case (Suc k)
      have "(\<forall>j<Suc k. \<not> prefix pat (drop j (x # xs))) \<longleftrightarrow> (\<forall>j<k. \<not> prefix pat (drop j xs))"
      proof
        assume a: "\<forall>j<Suc k. \<not> prefix pat (drop j (x # xs))"
        show "\<forall>j<k. \<not> prefix pat (drop j xs)"
        proof (intro allI impI)
          fix j assume "j < k"
          with a have "\<not> prefix pat (drop (Suc j) (x # xs))" by blast
          then show "\<not> prefix pat (drop j xs)" by simp
        qed
      next
        assume a: "\<forall>j<k. \<not> prefix pat (drop j xs)"
        show "\<forall>j<Suc k. \<not> prefix pat (drop j (x # xs))"
        proof (intro allI impI)
          fix j assume "j < Suc k"
          then show "\<not> prefix pat (drop j (x # xs))"
            using a False by (cases j) auto
        qed
      qed
      with False Suc Cons [of k] show ?thesis by auto
    qed
  qed
qed

lemma extract_unfold:
  "extract_field_mappings env basename output_dir raw =
     (if bytes_find raw zip_signature < 0 then ([], Some ValueError)
      else (case ZipFile env (drop (nat (bytes_find raw zip_signature)) raw) of
              None \<Rightarrow> ([], Some BadZipFile)
            | Some z \<Rightarrow> (case collect_mappings env z of
                  Inl e \<Rightarrow> ([], Some e)
                | Inr mappings \<Rightarrow> write_outputs env basename output_dir mappings)))"
  by (simp add: extract_field_mappings_def Let_def)

lemma extract_no_signature:
  assumes "\<forall>i. \<not> prefix zip_signature (drop i raw)"
  shows "extract_field_mappings env basename output_dir raw = ([], Some ValueError)"
proof -
  have "find_sub zip_signature raw = None" using assms by (simp add: find_sub_None)
  then show ?thesis unfolding extract_unfold by (simp add: bytes_find_def)
qed

lemma extract_at_signature:
  assumes "prefix zip_signature (drop i raw)" and "\<forall>j<i. \<not> prefix zip_signature (drop j raw)"
  shows "extract_field_mappings env basename output_dir raw =
      (case ZipFile env (drop i raw) of
         None \<Rightarrow> ([], Some BadZipFile)
       | Some z \<Rightarrow> (case collect_mappings env z of
             Inl e \<Rightarrow> ([], Some e)
           | Inr mappings \<Rightarrow> write_outputs env basename output_dir mappings))"
proof -
  have "i \<le> length raw"
  proof (rule ccontr)
    assume "\<not> i \<le> length raw"
    then have "drop i raw = []" by simp
    with assms(1) show False by (simp add: zip_signature_def)
  qed
  with assms have "find_sub zip_signature raw = Some i" by (simp add: find_sub_Some)
  then show ?thesis unfolding extract_unfold by (simp add: bytes_find_def)
qed

lemma extract_ignores_prefix:
  assumes "prefix zip_signature (drop i raw)" and "\<forall>j<i. \<not> prefix zip_signature (drop j raw)"
  shows "extract_field_mappings env basename output_dir raw =
         extract_field_mappings env basename output_dir (drop i raw)"
proof -
  have "prefix zip_signature (drop 0 (drop i raw))" using assms(1) by simp
  moreover have "\<forall>j<(0::nat). \<not> prefix zip_signature (drop j (drop i raw))" by simp
  ultimately have "extract_field_mappings env basename output_dir (drop i raw) =
      (case ZipFile env (drop 0 (drop i raw)) of
         None \<Rightarrow> ([], Some BadZipFile)
       | Some z \<Rightarrow> (case collect_mappings env z of
             Inl e \<Rightarrow> ([], Some e)
           | Inr mappings \<Rightarrow> write_outputs env basename output_dir mappings))"
    by (rule extract_at_signature)
  then show ?thesis using extract_at_signature [OF assms] by simp
qed

section \<open>Properties of the Report Assembler\<close>

lemma perform_returned: "perform snk cs = (done, None) \<Longrightarrow> done = cs"
proof (induction cs arbitrary: "done")
  case Nil
  then show ?case by simp
next
  case (Cons c cs)
  show ?case
  proof (cases "snk c")
    case None
    obtain d err where p: "perform snk cs = (d, err)" by (cases "perform snk cs")
    with Cons.prems None have "done = c # d" "err = None" by simp_all
    with Cons.IH [of d] p show ?thesis by simp
  next
    case (Some e)
    with Cons.prems show ?thesis by simp
  qed
qed

lemma perform_accepting: "\<forall>c. snk c = None \<Longrightarrow> perform snk cs = (cs, None)"
  by (induction cs) simp_all

lemma write_outputs_accepting:
  assumes "\<forall>c. sink env c = None" and "mappings \<noteq> []"
  shows "write_outputs env basename output_dir mappings =
     (calls_for (os_path_join output_dir (basename @ ''_field_map.xlsx''))
        (os_path_join output_dir (basename @ ''_field_map.csv'')) (sort_values mappings), None)"
  using assms by (simp add: write_outputs_def Let_def perform_accepting calls_for_def)

lemma write_outputs_returned:
  assumes "write_outputs env basename output_dir mappings = (cs, None)" and "cs \<noteq> []"
  shows "mappings \<noteq> [] \<and>
     cs = calls_for (os_path_join output_dir (basename @ ''_field_map.xlsx''))
        (os_path_join output_dir (basename @ ''_field_map.csv'')) (sort_values mappings)"
proof -
  let ?xp = "os_path_join output_dir (basename @ ''_field_map.xlsx'')"
  let ?cp = "os_path_join output_dir (basename @ ''_field_map.csv'')"
  let ?df = "sort_values mappings"
  let ?req = "map (\<lambda>(name, rows). ToExcel ?xp name rows) (excel_sheets ?df)"
  have ne: "mappings \<noteq> []"
  proof
    assume "mappings = []"
    with assms(1) have "cs = []" by (simp add: write_outputs_def)
    with assms(2) show False by simp
  qed
  obtain d err where p: "perform (sink env) ?req = (d, err)" by (cases "perform (sink env) ?req")
  have w: "write_outputs env basename output_dir mappings =
      (case sink env (OpenExcel ?xp) of
            Some e \<Rightarrow> ([], Some e)
          | None \<Rightarrow>
                 (case sink env (CloseExcel ?xp) of
                    Some e \<Rightarrow> (OpenExcel ?xp # d, Some e)
                  | None \<Rightarrow>
                     (case err of
                        Some e \<Rightarrow> (OpenExcel ?xp # d @ [CloseExcel ?xp], Some e)
                      | None \<Rightarrow>
                         (case sink env (ToCsv ?cp ?df) of
                            Some e \<Rightarrow> (OpenExcel ?xp # d @ [CloseExcel ?xp], Some e)
                          | None \<Rightarrow>
                             (OpenExcel ?xp # d @ [CloseExcel ?xp, ToCsv ?cp ?df], None)))))"
    using ne p by (simp add: write_outputs_def Let_def split: option.splits)
  from assms(1) have "err = None \<and> cs = OpenExcel ?xp # d @ [CloseExcel ?xp, ToCsv ?cp ?df]"
    unfolding w by (auto split: option.splits)
  moreover from this p have "d = ?req" using perform_returned by blast
  ultimately show ?thesis using ne by (simp add: calls_for_def)
qed

lemma extract_returned:
  assumes "extract_field_mappings env basename output_dir raw = (cs, None)" and "cs \<noteq> []"
  shows "\<exists>z mappings. ZipFile env (drop (nat (bytes_find raw zip_signature)) raw) = Some z
     \<and> collect_mappings env z = Inr mappings \<and> mappings \<noteq> []
     \<and> cs = calls_for (os_path_join output_dir (basename @ ''_field_map.xlsx''))
        (os_path_join output_dir (basename @ ''_field_map.csv'')) (sort_values mappings)"
proof -
  let ?idx = "bytes_find raw zip_signature"
  from assms(1) have nonneg: "\<not> ?idx < 0"
    unfolding extract_unfold by (simp split: if_splits)
  with assms(1) have c: "(case ZipFile env (drop (nat ?idx) raw) of
              None \<Rightarrow> ([], Some BadZipFile)
            | Some z \<Rightarrow> (case collect_mappings env z of
                  Inl e \<Rightarrow> ([], Some e)
                | Inr mappings \<Rightarrow> write_outputs env basename output_dir mappings)) = (cs, None)"
    unfolding extract_unfold by simp
  then obtain z where z: "ZipFile env (drop (nat ?idx) raw) = Some z"
    by (cases "ZipFile env (drop (nat ?idx) raw)") simp_all
  with c have c2: "(case collect_mappings env z of
                  Inl e \<Rightarrow> ([], Some e)
                | Inr mappings \<Rightarrow> write_outputs env basename output_dir mappings) = (cs, None)"
    by simp
  then obtain mappings where m: "collect_mappings env z = Inr mappings"
    by (cases "collect_mappings env z") simp_all
  with c2 have f: "write_outputs env basename output_dir mappings = (cs, None)"
    by simp
  from write_outputs_returned [OF f assms(2)] z m show ?thesis by (intro exI conjI) simp_all
qed


section \<open>Properties of the Mapping Merger\<close>

lemma field_row_not_direct: "Description (field_row dp_id dp_name e) \<noteq> ''Direct mapping''"
proof
  assume a: "Description (field_row dp_id dp_name e) = ''Direct mapping''"
  obtain fid fi where e: "e = (fid, fi)" by (cases e)
  have "CHR '','' \<in> set (Description (field_row dp_id dp_name e))"
    by (simp add: field_row_def e)
  with a show False by simp
qed

lemma formula_row_not_direct: "Description (formula_row dp_id dp_name e) \<noteq> ''Direct mapping''"
  by (cases e) (simp add: formula_row_def)

lemma direct_row_simps:
  "Description (direct_row dp_id dp_name tid mm) = ''Direct mapping''"
  "Technical_ID (direct_row dp_id dp_name tid mm) = tid"
  by (simp_all add: direct_row_def)

lemma add_direct_appends:
  "\<exists>new. add_direct dp_id dp_name dm out = out @ new
      \<and> (\<forall>r\<in>set new. Description r = ''Direct mapping'' \<and> Technical_ID r \<notin> Technical_ID ` set out)"
proof (induction dm arbitrary: out)
  case Nil
  then show ?case by simp
next
  case (Cons e dm)
  obtain tid mm where e: "e = (tid, mm)" by (cases e)
  show ?case
  proof (cases "list_ex (\<lambda>r. Technical_ID r = tid) out")
    case True
    with Cons [of out] e show ?thesis by simp
  next
    case False
    let ?out' = "out @ [direct_row dp_id dp_name tid mm]"
    from Cons [of ?out'] obtain new where
      n: "add_direct dp_id dp_name dm ?out' = ?out' @ new"
        "\<forall>r\<in>set new. Description r = ''Direct mapping'' \<and> Technical_ID r \<notin> Technical_ID ` set ?out'"
      by blast
    have "add_direct dp_id dp_name (e # dm) out = out @ (direct_row dp_id dp_name tid mm # new)"
      using False n(1) e by simp
    moreover have "\<forall>r\<in>set (direct_row dp_id dp_name tid mm # new).
        Description r = ''Direct mapping'' \<and> Technical_ID r \<notin> Technical_ID ` set out"
      using n(2) False by (auto simp: direct_row_simps list_ex_iff)
    ultimately show ?thesis by blast
  qed
qed

lemma fresh_snoc:
  "direct_ids_fresh (ms @ [r]) \<longleftrightarrow>
     direct_ids_fresh ms \<and> (Description r = ''Direct mapping'' \<longrightarrow> Technical_ID r \<notin> Technical_ID ` set ms)"
proof -
  have in_set: "Technical_ID r \<notin> Technical_ID ` set ms \<longleftrightarrow> (\<forall>i<length ms. Technical_ID (ms ! i) \<noteq> Technical_ID r)"
    by (metis image_iff in_set_conv_nth)
  show ?thesis
    unfolding direct_ids_fresh_def in_set
    by (auto simp: nth_append less_Suc_eq)
qed

lemma fresh_append_other:
  "direct_ids_fresh ms \<Longrightarrow> \<forall>r\<in>set new. Description r \<noteq> ''Direct mapping'' \<Longrightarrow> direct_ids_fresh (ms @ new)"
proof (induction new rule: rev_induct)
  case Nil
  then show ?case by simp
next
  case (snoc r new)
  then have "direct_ids_fresh (ms @ new)" by simp
  moreover have "Description r \<noteq> ''Direct mapping''" using snoc.prems by simp
  ultimately have "direct_ids_fresh ((ms @ new) @ [r])" by (simp only: fresh_snoc) simp
  then show ?case by simp
qed

lemma fresh_add_direct:
  "direct_ids_fresh out \<Longrightarrow> direct_ids_fresh (add_direct dp_id dp_name dm out)"
proof (induction dm arbitrary: out)
  case Nil
  then show ?case by simp
next
  case (Cons e dm)
  obtain tid mm where e: "e = (tid, mm)" by (cases e)
  show ?case
  proof (cases "list_ex (\<lambda>r. Technical_ID r = tid) out")
    case True
    with Cons e show ?thesis by simp
  next
    case False
    then have "Technical_ID (direct_row dp_id dp_name tid mm) \<notin> Technical_ID ` set out"
      by (auto simp: direct_row_simps list_ex_iff)
    with Cons.prems have "direct_ids_fresh (out @ [direct_row dp_id dp_name tid mm])"
      by (simp only: fresh_snoc) simp
    from Cons.IH [OF this] False e show ?thesis by simp
  qed
qed

lemma fresh_process:
  assumes "direct_ids_fresh out"
  shows "direct_ids_fresh (process_enhanced_mappings dp_id dp_name field_info direct_map dp_forms out)"
proof -
  have 1: "direct_ids_fresh (out @ map (field_row dp_id dp_name) field_info)"
    using assms by (rule fresh_append_other) (auto simp: field_row_not_direct)
  have 2: "direct_ids_fresh (add_direct dp_id dp_name direct_map (out @ map (field_row dp_id dp_name) field_info))"
    using 1 by (rule fresh_add_direct)
  have "direct_ids_fresh (add_direct dp_id dp_name direct_map (out @ map (field_row dp_id dp_name) field_info)
      @ map (formula_row dp_id dp_name) dp_forms)"
    using 2 by (rule fresh_append_other) (auto simp: formula_row_not_direct)
  then show ?thesis by (simp add: process_enhanced_mappings_def Let_def)
qed

lemma fresh_provider_loop:
  "direct_ids_fresh mappings \<Longrightarrow> provider_loop env z dp_names folders tv mappings = Inr ms
     \<Longrightarrow> direct_ids_fresh ms"
proof (induction folders arbitrary: tv mappings)
  case Nil
  then show ?case by simp
next
  case (Cons f folders)
  from Cons.prems(2) show ?case
    by (auto simp: Let_def split: list.splits if_splits sum.splits option.splits
        intro: Cons.IH [OF fresh_process [OF Cons.prems(1)]] Cons.IH [OF Cons.prems(1)])
qed

lemma fresh_empty: "direct_ids_fresh []"
  by (simp add: direct_ids_fresh_def)

lemma process_decomposed:
  "\<exists>new. process_enhanced_mappings dp_id dp_name field_info direct_map dp_forms out =
       out @ map (field_row dp_id dp_name) field_info @ new @ map (formula_row dp_id dp_name) dp_forms
     \<and> (\<forall>r\<in>set new. Description r = ''Direct mapping''
           \<and> Technical_ID r \<notin> Technical_ID ` set (out @ map (field_row dp_id dp_name) field_info))"
proof -
  from add_direct_appends [of dp_id dp_name direct_map "out @ map (field_row dp_id dp_name) field_info"]
  obtain new where
    n: "add_direct dp_id dp_name direct_map (out @ map (field_row dp_id dp_name) field_info)
          = (out @ map (field_row dp_id dp_name) field_info) @ new"
    and f: "\<forall>r\<in>set new. Description r = ''Direct mapping''
           \<and> Technical_ID r \<notin> Technical_ID ` set (out @ map (field_row dp_id dp_name) field_info)"
    by blast
  have "process_enhanced_mappings dp_id dp_name field_info direct_map dp_forms out =
       out @ map (field_row dp_id dp_name) field_info @ new @ map (formula_row dp_id dp_name) dp_forms"
    by (simp add: process_enhanced_mappings_def Let_def n)
  with f show ?thesis by blast
qed

lemma field_row_id: "Technical_ID (field_row dp_id dp_name (fid, fi)) = fid"
  by (simp add: field_row_def)

text \<open>
  Claim C1. Among the rows one call of the merger appends for a provider, a row with
  the technical id of a field the XML miner yielded is never a direct-mapping row (the
  rows the second loop appends are the ones described \<open>Direct mapping\<close>), and the
  miner's own row for that field is among them.
\<close>

theorem C1_miner_takes_precedence:
  assumes "(fid, fi) \<in> set field_info"
    and "r \<in> set (drop (length out)
           (process_enhanced_mappings dp_id dp_name field_info direct_map dp_forms out))"
    and "Technical_ID r = fid"
  shows "Description r \<noteq> ''Direct mapping''
     \<and> field_row dp_id dp_name (fid, fi) \<in> set (drop (length out)
           (process_enhanced_mappings dp_id dp_name field_info direct_map dp_forms out))"
proof -
  let ?F = "map (field_row dp_id dp_name) field_info"
  let ?G = "map (formula_row dp_id dp_name) dp_forms"
  from process_decomposed [of dp_id dp_name field_info direct_map dp_forms out]
  obtain new where
    p: "process_enhanced_mappings dp_id dp_name field_info direct_map dp_forms out = out @ ?F @ new @ ?G"
    and f: "\<forall>r\<in>set new. Description r = ''Direct mapping'' \<and> Technical_ID r \<notin> Technical_ID ` set (out @ ?F)"
    by blast
  have d: "drop (length out) (process_enhanced_mappings dp_id dp_name field_info direct_map dp_forms out)
      = ?F @ new @ ?G"
    by (simp add: p)
  have mine: "field_row dp_id dp_name (fid, fi) \<in> set ?F"
    using assms(1) by simp
  then have "fid \<in> Technical_ID ` set (out @ ?F)"
    using field_row_id [of dp_id dp_name fid fi] by (metis UnI2 image_eqI set_append)
  with f assms(3) have "r \<notin> set new" by blast
  with assms(2) have "r \<in> set ?F \<or> r \<in> set ?G" by (auto simp: d)
  then have "Description r \<noteq> ''Direct mapping''"
    using field_row_not_direct formula_row_not_direct by auto
  with mine show ?thesis by (simp add: d)
qed

theorem C1_miner_takes_precedence_witness:
  "(''X'', \<lparr>fi_display_name = ''Net'', fi_expression = [], fi_element_type = ''object'',
        fi_data_type = [], fi_is_calculated = False\<rparr>)
     \<in> set [(''X'', \<lparr>fi_display_name = ''Net'', fi_expression = [], fi_element_type = ''object'',
        fi_data_type = [], fi_is_calculated = False\<rparr>)]
   \<and> process_enhanced_mappings ''DP1'' ''DP1''
       [(''X'', \<lparr>fi_display_name = ''Net'', fi_expression = [], fi_element_type = ''object'',
          fi_data_type = [], fi_is_calculated = False\<rparr>)]
       [(''X'', \<lparr>dm_display_name = ''Gross'', dm_sample_value = ''7''\<rparr>)] [] []
      = [field_row ''DP1'' ''DP1'' (''X'', \<lparr>fi_display_name = ''Net'', fi_expression = [],
          fi_element_type = ''object'', fi_data_type = [], fi_is_calculated = False\<rparr>)]
   \<and> Technical_ID (field_row ''DP1'' ''DP1'' (''X'', \<lparr>fi_display_name = ''Net'', fi_expression = [],
          fi_element_type = ''object'', fi_data_type = [], fi_is_calculated = False\<rparr>)) = ''X''
   \<and> Description (field_row ''DP1'' ''DP1'' (''X'', \<lparr>fi_display_name = ''Net'', fi_expression = [],
          fi_element_type = ''object'', fi_data_type = [], fi_is_calculated = False\<rparr>))
        \<noteq> ''Direct mapping''"
proof -
  let ?fi = "\<lparr>fi_display_name = ''Net'', fi_expression = [], fi_element_type = ''object'',
        fi_data_type = [], fi_is_calculated = False\<rparr>"
  let ?dm = "[(''X'', \<lparr>dm_display_name = ''Gross'', dm_sample_value = ''7''\<rparr>)]"
  let ?r = "field_row ''DP1'' ''DP1'' (''X'', ?fi)"
  have h1: "(''X'', ?fi) \<in> set [(''X'', ?fi)]" by simp
  have id: "Technical_ID ?r = ''X''" by (rule field_row_id)
  have ev: "process_enhanced_mappings ''DP1'' ''DP1'' [(''X'', ?fi)] ?dm [] [] = [?r]"
    by (simp add: process_enhanced_mappings_def id)
  have h2: "?r \<in> set (drop (length ([] :: mapping_row list))
      (process_enhanced_mappings ''DP1'' ''DP1'' [(''X'', ?fi)] ?dm [] []))"
    by (simp add: ev)
  from C1_miner_takes_precedence [OF h1 h2 id]
  have "Description ?r \<noteq> ''Direct mapping''" by blast
  with h1 ev id show ?thesis by (intro conjI)
qed


section \<open>The pipeline on the example containers\<close>

subsection \<open>The decoder of the examples\<close>

lemma utf8_decode_ascii: "\<forall>b\<in>set bs. b < 128 \<Longrightarrow> utf8_decode h bs = Inr bs"
  by (induction bs) simp_all

lemma unat_encode: "map unat (encode_latin1 s) = map of_char s"
proof -
  have "unat (of_nat (of_char c) :: 8 word) = of_char c" for c :: char
  proof -
    have "(of_char c :: nat) < 256" by (rule nat_of_char_less_256)
    then show ?thesis by (simp add: unat_of_nat)
  qed
  then show ?thesis by (simp add: encode_latin1_def)
qed

lemma example_decode_ascii:
  assumes "\<forall>c\<in>set s. (of_char c :: nat) < 128"
  shows "example_decode UTF8 (encode_latin1 s) = Inr s"
proof -
  have "utf8_decode Ignore (map of_char s) = Inr (map of_char s)"
    using assms by (intro utf8_decode_ascii) auto
  then have "py_decode UTF8 Ignore (encode_latin1 s) = Inr (map of_char s)"
    by (simp add: py_decode_utf8 unat_encode)
  moreover have "map char_of (map of_char s :: nat list) = s"
    by (simp add: map_idI)
  ultimately show ?thesis by (simp add: example_decode_def)
qed

lemma bind_text_first:
  "decode env UTF8 raw = Inr t \<Longrightarrow> bind_text (decode env) raw before = Some t"
  by (simp add: bind_text_def)

lemma example_env_simps:
  "ZipFile (example_env wid z parse) wid = Some z"
  "decode (example_env wid z parse) = example_decode"
  "ET_fromstring (example_env wid z parse) = parse"
  "sink (example_env wid z parse) c = None"
  by (simp_all add: example_env_def)

subsection \<open>Names of the entries\<close>

lemma folder_names:
  "suffix ''DP_Generic'' ''Data/DATAPROVIDERS/DP1/'' = False"
  "suffix ''DP_Generic'' ''Data/DATAPROVIDERS/DP1/DP_Generic'' = True"
  "suffix ''DP_Generic'' ''Data/DATAPROVIDERS/DP2/'' = False"
  "suffix ''DP_Generic'' ''Data/DATAPROVIDERS/DP2/DP_Generic'' = True"
  "re_search NOFLAGS pat_DP ''Data/DATAPROVIDERS/DP1/DP_Generic'' = Some [(1, ''DP1'')]"
  "re_search NOFLAGS pat_DP ''Data/DATAPROVIDERS/DP2/DP_Generic'' = Some [(1, ''DP2'')]"
  "rev (py_split CHR ''/'' ''Data/DATAPROVIDERS/DP1/'') = [[], ''DP1'', ''DATAPROVIDERS'', ''Data'']"
  "rev (py_split CHR ''/'' ''Data/DATAPROVIDERS/DP2/'') = [[], ''DP2'', ''DATAPROVIDERS'', ''Data'']"
  by code_simp+

lemma no_doc_names:
  "any_in_upper [''DOCUMENT'', ''REPORT'', ''STRUCTURE''] ''Data/DATAPROVIDERS/DP1/'' = False"
  "any_in_upper [''DOCUMENT'', ''REPORT'', ''STRUCTURE''] ''Data/DATAPROVIDERS/DP1/DP_Generic'' = False"
  "any_in_upper [''DOCUMENT'', ''REPORT'', ''STRUCTURE''] ''Data/DATAPROVIDERS/DP2/'' = False"
  "any_in_upper [''DOCUMENT'', ''REPORT'', ''STRUCTURE''] ''Data/DATAPROVIDERS/DP2/DP_Generic'' = False"
  "any_in_upper [''DOCUMENT'', ''VARIABLE'', ''FORMULA''] ''Data/DATAPROVIDERS/DP1/'' = False"
  "any_in_upper [''DOCUMENT'', ''VARIABLE'', ''FORMULA''] ''Data/DATAPROVIDERS/DP1/DP_Generic'' = False"
  "any_in_upper [''DOCUMENT'', ''VARIABLE'', ''FORMULA''] ''Data/DATAPROVIDERS/DP2/'' = False"
  "any_in_upper [''DOCUMENT'', ''VARIABLE'', ''FORMULA''] ''Data/DATAPROVIDERS/DP2/DP_Generic'' = False"
  by code_simp+

lemma is_dp_folder:
  "(suffix ''/'' ''Data/DATAPROVIDERS/DP1/'' \<and> contains ''/DATAPROVIDERS/DP'' ''Data/DATAPROVIDERS/DP1/'') = True"
  "(suffix ''/'' ''Data/DATAPROVIDERS/DP1/DP_Generic'' \<and> contains ''/DATAPROVIDERS/DP'' ''Data/DATAPROVIDERS/DP1/DP_Generic'') = False"
  "(suffix ''/'' ''Data/DATAPROVIDERS/DP2/'' \<and> contains ''/DATAPROVIDERS/DP'' ''Data/DATAPROVIDERS/DP2/'') = True"
  "(suffix ''/'' ''Data/DATAPROVIDERS/DP2/DP_Generic'' \<and> contains ''/DATAPROVIDERS/DP'' ''Data/DATAPROVIDERS/DP2/DP_Generic'') = False"
  by code_simp+

lemma clean_examples:
  "clean_column_name ''Total'' = ''total''"
  "clean_column_name ''DP2.DO9'' = ''dp2do9''"
  "clean_column_name ''Revenue'' = ''revenue''"
  "clean_column_name ''formula_DP1_FORM_0'' = ''formuladp1form0''"
  by code_simp+

lemma report_paths:
  "os_path_join ''out'' ''report_field_map.xlsx'' = ''out/report_field_map.xlsx''"
  "os_path_join ''out'' ''report_field_map.csv'' = ''out/report_field_map.csv''"
  by code_simp+

lemma no_formula_attrs:
  assumes "re_finditer IGNORECASE (pat_attr ''formula'') t = []"
    and "re_finditer IGNORECASE (pat_attr ''expression'') t = []"
    and "re_finditer IGNORECASE (pat_attr ''calculation'') t = []"
  shows "extract_dp_formulas t dp_id = []"
  using assms by (simp add: extract_dp_formulas_def scan_attr_def enumerate_eq_zip)

subsection \<open>The example with a direct mapping\<close>

lemma direct_text_ascii: "\<forall>c\<in>set direct_text. (of_char c :: nat) < 128"
  by (simp add: direct_text_def)

lemma direct_text_xml: "extract_xml direct_text = None"
  unfolding direct_text_def by code_simp

lemma direct_text_mappings: "extract_direct_mappings direct_text =
    [(''DP1.DO7'', \<lparr>dm_display_name = ''Total'', dm_sample_value = ''42''\<rparr>)]"
  unfolding direct_text_def by code_simp

lemma direct_text_formulas: "extract_dp_formulas direct_text dp_id = []"
proof (rule no_formula_attrs)
  show "re_finditer IGNORECASE (pat_attr ''formula'') direct_text = []"
    unfolding direct_text_def by code_simp
  show "re_finditer IGNORECASE (pat_attr ''expression'') direct_text = []"
    unfolding direct_text_def by code_simp
  show "re_finditer IGNORECASE (pat_attr ''calculation'') direct_text = []"
    unfolding direct_text_def by code_simp
qed

lemma direct_example_names:
  "namelist direct_example = [''Data/DATAPROVIDERS/DP1/'', ''Data/DATAPROVIDERS/DP1/DP_Generic'']"
  by (simp add: namelist_def direct_example_def)

lemma direct_example_read:
  "zread direct_example ''Data/DATAPROVIDERS/DP1/DP_Generic'' = Inr (encode_latin1 direct_text)"
  by (simp add: zread_def direct_example_def)

lemma direct_example_provider_names:
  assumes "decode env UTF8 (encode_latin1 direct_text) = Inr direct_text"
  shows "extract_data_provider_names env direct_example = Inr [(''DP1'', ''DP1'')]"
  by (simp add: extract_data_provider_names_def direct_example_names direct_example_read folder_names
      bind_text_first [OF assms] direct_text_xml classify_def m_group_def)

lemma direct_example_doc:
  "extract_calculated_fields env direct_example = Inr []"
  "extract_report_variables env direct_example = Inr []"
  by (simp_all add: extract_calculated_fields_def extract_report_variables_def direct_example_names no_doc_names)

lemma direct_example_folders: "dp_folders direct_example = [''Data/DATAPROVIDERS/DP1/'']"
  by (simp add: dp_folders_def direct_example_names is_dp_folder del: suffix_Cons)

lemma process_direct_only:
  assumes "\<not> list_ex (\<lambda>r. Technical_ID r = ''DP1.DO7'') out"
  shows "process_enhanced_mappings dp_id dp_name []
      [(''DP1.DO7'', \<lparr>dm_display_name = ''Total'', dm_sample_value = ''42''\<rparr>)] [] out
    = out @ [direct_example_row dp_id dp_name]"
  using assms
  by (simp add: process_enhanced_mappings_def direct_row_def direct_example_row_def clean_examples)

lemma direct_example_loop:
  assumes "decode env UTF8 (encode_latin1 direct_text) = Inr direct_text"
  shows "provider_loop env direct_example [(''DP1'', ''DP1'')] [''Data/DATAPROVIDERS/DP1/''] None []
     = Inr [direct_example_row ''DP1'' ''DP1'']"
  by (simp add: folder_names direct_example_names direct_example_read bind_text_first [OF assms]
      direct_text_xml direct_text_mappings direct_text_formulas process_direct_only)

lemma direct_example_collect:
  assumes "decode env UTF8 (encode_latin1 direct_text) = Inr direct_text"
  shows "collect_mappings env direct_example = Inr [direct_example_row ''DP1'' ''DP1'']"
  by (simp add: collect_mappings_def direct_example_provider_names [OF assms] direct_example_doc
      direct_example_folders direct_example_loop [OF assms] del: provider_loop.simps)

subsection \<open>The example with a query specification\<close>

lemma xml_text_ascii: "\<forall>c\<in>set xml_text. (of_char c :: nat) < 128"
  by (simp add: xml_text_def)

lemma xml_text_xml: "extract_xml xml_text = Some xml_text"
  unfolding xml_text_def by code_simp

lemma xml_text_not_empty: "xml_text \<noteq> []"
  by (simp add: xml_text_def)

lemma xml_text_calculations: "re_finditer IGNORECASE_DOTALL pat_QueryCalculation xml_text = []"
  unfolding xml_text_def by code_simp

lemma xml_text_mappings: "extract_direct_mappings xml_text = []"
  unfolding xml_text_def by code_simp

lemma xml_text_formulas: "extract_dp_formulas xml_text ''DP1'' = [(''DP1_FORM_0'', ''SUM(X)'')]"
  unfolding xml_text_def by code_simp

lemma xml_text_label: "classify (Some xml_text) ''DP1'' = ''DP1''"
  unfolding xml_text_def by code_simp

lemma xml_tree_fields:
  "fold (\<lambda>el info. case element_field el of None \<Rightarrow> info | Some (fid, fi) \<Rightarrow> dict_set fid fi info)
     (descendants xml_tree) [] =
   [(''F1'', \<lparr>fi_display_name = ''Revenue'', fi_expression = ''SUM(X)'', fi_element_type = ''object'',
       fi_data_type = [], fi_is_calculated = True\<rparr>)]"
  unfolding xml_tree_def by code_simp

lemma xml_text_field_info:
  assumes "parse xml_text = Some xml_tree"
  shows "extract_comprehensive_field_info parse xml_text =
    [(''F1'', \<lparr>fi_display_name = ''Revenue'', fi_expression = ''SUM(X)'', fi_element_type = ''object'',
       fi_data_type = [], fi_is_calculated = True\<rparr>)]"
  using assms
  by (simp add: extract_comprehensive_field_info_def xml_text_not_empty xml_tree_fields
      xml_text_calculations)

lemma xml_example_names:
  "namelist xml_example = [''Data/DATAPROVIDERS/DP1/'', ''Data/DATAPROVIDERS/DP1/DP_Generic'']"
  by (simp add: namelist_def xml_example_def)

lemma xml_example_read:
  "zread xml_example ''Data/DATAPROVIDERS/DP1/DP_Generic'' = Inr (encode_latin1 xml_text)"
  by (simp add: zread_def xml_example_def)

lemma xml_example_provider_names:
  assumes "decode env UTF8 (encode_latin1 xml_text) = Inr xml_text"
  shows "extract_data_provider_names env xml_example = Inr [(''DP1'', ''DP1'')]"
  by (simp add: extract_data_provider_names_def xml_example_names xml_example_read folder_names
      bind_text_first [OF assms] xml_text_xml xml_text_label m_group_def)

lemma xml_example_doc:
  "extract_calculated_fields env xml_example = Inr []"
  "extract_report_variables env xml_example = Inr []"
  by (simp_all add: extract_calculated_fields_def extract_report_variables_def xml_example_names no_doc_names)

lemma xml_example_folders: "dp_folders xml_example = [''Data/DATAPROVIDERS/DP1/'']"
  by (simp add: dp_folders_def xml_example_names is_dp_folder del: suffix_Cons)

lemma xml_example_process:
  "process_enhanced_mappings ''DP1'' ''DP1''
     [(''F1'', \<lparr>fi_display_name = ''Revenue'', fi_expression = ''SUM(X)'', fi_element_type = ''object'',
       fi_data_type = [], fi_is_calculated = True\<rparr>)] [] [(''DP1_FORM_0'', ''SUM(X)'')] []
   = [xml_field_row, xml_formula_row]"
  by (simp add: process_enhanced_mappings_def field_row_def formula_row_def xml_field_row_def
      xml_formula_row_def clean_examples)

lemma xml_example_loop:
  assumes "decode env UTF8 (encode_latin1 xml_text) = Inr xml_text"
    and "ET_fromstring env xml_text = Some xml_tree"
  shows "provider_loop env xml_example [(''DP1'', ''DP1'')] [''Data/DATAPROVIDERS/DP1/''] None []
     = Inr [xml_field_row, xml_formula_row]"
  by (simp add: folder_names xml_example_names xml_example_read bind_text_first [OF assms(1)]
      xml_text_xml xml_text_mappings xml_text_formulas
      xml_text_field_info [of "ET_fromstring env", OF assms(2)] xml_example_process)

lemma xml_example_collect:
  assumes "decode env UTF8 (encode_latin1 xml_text) = Inr xml_text"
    and "ET_fromstring env xml_text = Some xml_tree"
  shows "collect_mappings env xml_example = Inr [xml_field_row, xml_formula_row]"
  by (simp add: collect_mappings_def xml_example_provider_names [OF assms(1)] xml_example_doc
      xml_example_folders xml_example_loop [OF assms] del: provider_loop.simps)

lemma xml_rows_sorted: "sort_values [xml_field_row, xml_formula_row] = [xml_formula_row, xml_field_row]"
proof -
  have "''Formula DP1_FORM_0'' < ''Revenue''" by code_simp
  then have "\<not> (''DP1'', ''Revenue'') \<le> (''DP1'', ''Formula DP1_FORM_0'')"
    by (simp add: less_eq_prod_def not_le [symmetric])
  then show ?thesis
    by (simp add: sort_values_def xml_field_row_def xml_formula_row_def)
qed

lemma xml_rows_calculated: "is_calculated_row xml_field_row" "\<not> is_calculated_row xml_formula_row"
  by (simp_all add: is_calculated_row_def xml_field_row_def xml_formula_row_def)

lemma direct_row_not_calculated: "\<not> is_calculated_row (direct_example_row a b)"
  by (simp add: is_calculated_row_def direct_example_row_def)

subsection \<open>The example with two providers\<close>

lemma second_text_ascii: "\<forall>c\<in>set second_text. (of_char c :: nat) < 128"
  by (simp add: second_text_def)

lemma second_text_xml: "extract_xml second_text = None"
  unfolding second_text_def by code_simp

lemma second_text_mappings: "extract_direct_mappings second_text =
    [(''DP1.DO7'', \<lparr>dm_display_name = ''Sum'', dm_sample_value = ''1''\<rparr>),
     (''DP2.DO9'', \<lparr>dm_display_name = [], dm_sample_value = []\<rparr>)]"
  unfolding second_text_def by code_simp

lemma second_text_formulas: "extract_dp_formulas second_text dp_id = []"
proof (rule no_formula_attrs)
  show "re_finditer IGNORECASE (pat_attr ''formula'') second_text = []"
    unfolding second_text_def by code_simp
  show "re_finditer IGNORECASE (pat_attr ''expression'') second_text = []"
    unfolding second_text_def by code_simp
  show "re_finditer IGNORECASE (pat_attr ''calculation'') second_text = []"
    unfolding second_text_def by code_simp
qed

lemma two_example_names:
  "namelist two_example = [''Data/DATAPROVIDERS/DP1/'', ''Data/DATAPROVIDERS/DP1/DP_Generic'',
     ''Data/DATAPROVIDERS/DP2/'', ''Data/DATAPROVIDERS/DP2/DP_Generic'']"
  by (simp add: namelist_def two_example_def)

lemma two_example_read:
  "zread two_example ''Data/DATAPROVIDERS/DP1/DP_Generic'' = Inr (encode_latin1 direct_text)"
  "zread two_example ''Data/DATAPROVIDERS/DP2/DP_Generic'' = Inr (encode_latin1 second_text)"
  by (simp_all add: zread_def two_example_def)

lemma two_example_process:
  "process_enhanced_mappings ''DP2'' ''DP2'' []
     [(''DP1.DO7'', \<lparr>dm_display_name = ''Sum'', dm_sample_value = ''1''\<rparr>),
      (''DP2.DO9'', \<lparr>dm_display_name = [], dm_sample_value = []\<rparr>)] []
     [direct_example_row ''DP1'' ''DP1'']
   = [direct_example_row ''DP1'' ''DP1'', second_example_row]"
  by (simp add: process_enhanced_mappings_def direct_row_def direct_example_row_def
      second_example_row_def clean_examples)

lemma two_example_folders:
  "dp_folders two_example = [''Data/DATAPROVIDERS/DP1/'', ''Data/DATAPROVIDERS/DP2/'']"
  by (simp add: dp_folders_def two_example_names is_dp_folder del: suffix_Cons)

lemma two_example_loop:
  assumes "decode env UTF8 (encode_latin1 direct_text) = Inr direct_text"
    and "decode env UTF8 (encode_latin1 second_text) = Inr second_text"
  shows "provider_loop env two_example [(''DP1'', ''DP1''), (''DP2'', ''DP2'')]
      [''Data/DATAPROVIDERS/DP1/'', ''Data/DATAPROVIDERS/DP2/''] None []
     = Inr [direct_example_row ''DP1'' ''DP1'', second_example_row]"
  by (simp add: folder_names two_example_names two_example_read
      bind_text_first [OF assms(1)] bind_text_first [OF assms(2)]
      direct_text_xml direct_text_mappings direct_text_formulas process_direct_only
      second_text_xml second_text_mappings second_text_formulas two_example_process)


section \<open>The runs on the example containers\<close>

lemma example_wids:
  "prefix zip_signature direct_wid" "prefix zip_signature xml_wid" "prefix zip_signature two_wid"
  by (simp_all add: zip_signature_def direct_wid_def xml_wid_def two_wid_def)

lemma extract_accepting:
  assumes "prefix zip_signature (drop i raw)" and "\<forall>j<i. \<not> prefix zip_signature (drop j raw)"
    and "ZipFile env (drop i raw) = Some z" and "collect_mappings env z = Inr mappings"
    and "mappings \<noteq> []" and "\<forall>c. sink env c = None"
  shows "extract_field_mappings env basename output_dir raw =
     (calls_for (os_path_join output_dir (basename @ ''_field_map.xlsx''))
        (os_path_join output_dir (basename @ ''_field_map.csv'')) (sort_values mappings), None)"
  using extract_at_signature [OF assms(1,2), of env basename output_dir] assms(3,4)
    write_outputs_accepting [OF assms(6,5), of basename output_dir]
  by simp

lemma at_start: "prefix zip_signature wid \<Longrightarrow> prefix zip_signature (drop 0 wid)"
  "\<forall>j<(0::nat). \<not> prefix zip_signature (drop j wid)"
  by simp_all

lemma example_sink: "\<forall>c. sink (example_env wid z parse) c = None"
  by (simp add: example_env_simps)

lemma example_decodes:
  "decode (example_env wid z parse) UTF8 (encode_latin1 direct_text) = Inr direct_text"
  "decode (example_env wid z parse) UTF8 (encode_latin1 xml_text) = Inr xml_text"
  "decode (example_env wid z parse) UTF8 (encode_latin1 second_text) = Inr second_text"
  by (simp_all add: example_env_simps example_decode_ascii direct_text_ascii xml_text_ascii second_text_ascii)

lemma direct_calls:
  "calls_for (os_path_join ''out'' (''report'' @ ''_field_map.xlsx''))
        (os_path_join ''out'' (''report'' @ ''_field_map.csv'')) (sort_values [direct_example_row ''DP1'' ''DP1''])
   = [OpenExcel ''out/report_field_map.xlsx'',
      ToExcel ''out/report_field_map.xlsx'' ''All Fields'' [direct_example_row ''DP1'' ''DP1''],
      ToExcel ''out/report_field_map.xlsx'' ''Data Fields'' [direct_example_row ''DP1'' ''DP1''],
      CloseExcel ''out/report_field_map.xlsx'',
      ToCsv ''out/report_field_map.csv'' [direct_example_row ''DP1'' ''DP1'']]"
  by (simp add: calls_for_def sort_values_def excel_sheets_def direct_row_not_calculated report_paths Let_def)

lemma xml_calls:
  "calls_for (os_path_join ''out'' (''report'' @ ''_field_map.xlsx''))
        (os_path_join ''out'' (''report'' @ ''_field_map.csv'')) (sort_values [xml_field_row, xml_formula_row])
   = [OpenExcel ''out/report_field_map.xlsx'',
      ToExcel ''out/report_field_map.xlsx'' ''All Fields'' [xml_formula_row, xml_field_row],
      ToExcel ''out/report_field_map.xlsx'' ''Calculated Fields'' [xml_field_row],
      ToExcel ''out/report_field_map.xlsx'' ''Data Fields'' [xml_formula_row],
      CloseExcel ''out/report_field_map.xlsx'',
      ToCsv ''out/report_field_map.csv'' [xml_formula_row, xml_field_row]]"
  by (simp add: calls_for_def xml_rows_sorted excel_sheets_def xml_rows_calculated report_paths Let_def)

lemma direct_example_run:
  "extract_field_mappings (example_env direct_wid direct_example parse) ''report'' ''out'' direct_wid
   = ([OpenExcel ''out/report_field_map.xlsx'',
      ToExcel ''out/report_field_map.xlsx'' ''All Fields'' [direct_example_row ''DP1'' ''DP1''],
      ToExcel ''out/report_field_map.xlsx'' ''Data Fields'' [direct_example_row ''DP1'' ''DP1''],
      CloseExcel ''out/report_field_map.xlsx'',
      ToCsv ''out/report_field_map.csv'' [direct_example_row ''DP1'' ''DP1'']], None)"
proof -
  let ?env = "example_env direct_wid direct_example parse"
  have z: "ZipFile ?env (drop 0 direct_wid) = Some direct_example"
    by (simp add: example_env_simps)
  have c: "collect_mappings ?env direct_example = Inr [direct_example_row ''DP1'' ''DP1'']"
    by (rule direct_example_collect) (rule example_decodes)
  have "extract_field_mappings ?env ''report'' ''out'' direct_wid =
     (calls_for (os_path_join ''out'' (''report'' @ ''_field_map.xlsx''))
        (os_path_join ''out'' (''report'' @ ''_field_map.csv''))
        (sort_values [direct_example_row ''DP1'' ''DP1'']), None)"
    by (rule extract_accepting [OF at_start(1) [OF example_wids(1)] at_start(2) z c _ example_sink]) simp
  then show ?thesis by (simp only: direct_calls)
qed

lemma xml_example_run:
  "extract_field_mappings (example_env xml_wid xml_example xml_parse) ''report'' ''out'' xml_wid
   = ([OpenExcel ''out/report_field_map.xlsx'',
      ToExcel ''out/report_field_map.xlsx'' ''All Fields'' [xml_formula_row, xml_field_row],
      ToExcel ''out/report_field_map.xlsx'' ''Calculated Fields'' [xml_field_row],
      ToExcel ''out/report_field_map.xlsx'' ''Data Fields'' [xml_formula_row],
      CloseExcel ''out/report_field_map.xlsx'',
      ToCsv ''out/report_field_map.csv'' [xml_formula_row, xml_field_row]], None)"
proof -
  let ?env = "example_env xml_wid xml_example xml_parse"
  have z: "ZipFile ?env (drop 0 xml_wid) = Some xml_example"
    by (simp add: example_env_simps)
  have p: "ET_fromstring ?env xml_text = Some xml_tree"
    by (simp add: example_env_simps xml_parse_def)
  have c: "collect_mappings ?env xml_example = Inr [xml_field_row, xml_formula_row]"
    by (rule xml_example_collect) (rule example_decodes p)+
  have "extract_field_mappings ?env ''report'' ''out'' xml_wid =
     (calls_for (os_path_join ''out'' (''report'' @ ''_field_map.xlsx''))
        (os_path_join ''out'' (''report'' @ ''_field_map.csv''))
        (sort_values [xml_field_row, xml_formula_row]), None)"
    by (rule extract_accepting [OF at_start(1) [OF example_wids(2)] at_start(2) z c _ example_sink]) simp
  then show ?thesis by (simp only: xml_calls)
qed


section \<open>Properties of the whole run\<close>

lemma excel_sheets_cases:
  "excel_sheets df =
     (if list_ex is_calculated_row df
      then [(''All Fields'', df), (''Calculated Fields'', filter is_calculated_row df),
            (''Data Fields'', filter (\<lambda>r. \<not> is_calculated_row r) df)]
      else [(''All Fields'', df), (''Data Fields'', df)])"
proof (cases "list_ex is_calculated_row df")
  case True
  then have "filter is_calculated_row df \<noteq> []"
    by (simp add: list_ex_iff filter_empty_conv)
  with True show ?thesis by (simp add: excel_sheets_def Let_def)
next
  case False
  then have e: "filter is_calculated_row df = []"
    by (simp add: list_ex_iff filter_empty_conv)
  from False have "filter (\<lambda>r. \<not> is_calculated_row r) df = df"
    by (simp add: list_ex_iff)
  with False e show ?thesis by (simp add: excel_sheets_def Let_def)
qed

lemma sort_values_ordered:
  assumes "a < b" and "b < length (sort_values df)"
  shows "Data_Provider (sort_values df ! a) < Data_Provider (sort_values df ! b)
     \<or> (Data_Provider (sort_values df ! a) = Data_Provider (sort_values df ! b)
        \<and> Display_Name (sort_values df ! a) \<le> Display_Name (sort_values df ! b))"
proof -
  let ?f = "\<lambda>r. (Data_Provider r, Display_Name r)"
  let ?s = "sort_values df"
  have "sorted (map ?f ?s)" unfolding sort_values_def by (rule sorted_sort_key)
  moreover have "a \<le> b" "b < length (map ?f ?s)" using assms by simp_all
  ultimately have "map ?f ?s ! a \<le> map ?f ?s ! b"
    unfolding sorted_iff_nth_mono by blast
  then have "?f (?s ! a) \<le> ?f (?s ! b)" using assms by simp
  then show ?thesis by (auto simp: less_eq_prod_def)
qed

lemma sort_values_stable:
  "filter (\<lambda>r. Data_Provider r = p \<and> Display_Name r = n) (sort_values df)
     = filter (\<lambda>r. Data_Provider r = p \<and> Display_Name r = n) df"
  using sort_key_stable [of "\<lambda>r. (Data_Provider r, Display_Name r)" "(p, n)" df]
  by (simp add: sort_values_def)

lemma sort_values_same: "length (sort_values df) = length df" "set (sort_values df) = set df"
  by (simp_all add: sort_values_def)




lemma no_signature_example: "\<forall>i. \<not> prefix zip_signature (drop i [0x4D, 0x5A])"
proof -
  have "find_sub zip_signature [0x4D, 0x5A :: byte] = None"
    by (simp add: zip_signature_def)
  then show ?thesis by (rule iffD1 [OF find_sub_None])
qed

lemma signature_after_two:
  "prefix zip_signature (drop 2 ([0x4D, 0x5A] @ direct_wid))"
  "\<forall>j<2. \<not> prefix zip_signature (drop j ([0x4D, 0x5A] @ direct_wid))"
  "drop 2 ([0x4D, 0x5A] @ direct_wid) = direct_wid"
proof -
  show d: "drop 2 ([0x4D, 0x5A] @ direct_wid) = direct_wid" by simp
  show "prefix zip_signature (drop 2 ([0x4D, 0x5A] @ direct_wid))"
    unfolding d by (rule example_wids)
  have "\<not> prefix zip_signature (drop 0 ([0x4D, 0x5A] @ direct_wid))"
    by (simp add: zip_signature_def)
  moreover have "\<not> prefix zip_signature (drop 1 ([0x4D, 0x5A] @ direct_wid))"
    by (simp add: zip_signature_def)
  ultimately show "\<forall>j<2. \<not> prefix zip_signature (drop j ([0x4D, 0x5A] @ direct_wid))"
    by (simp add: numeral_2_eq_2 All_less_Suc)
qed

text \<open>
  Claim C2. When the bytes of the container hold no ZIP local-file-header signature,
  the run raises \<open>ValueError\<close> before anything is parsed and makes no call to the
  sink, so it writes no file. When the signature first occurs at offset \<open>i\<close>, the
  archive is opened on the bytes from \<open>i\<close> on, and the run is the run on those bytes
  alone: the bytes before the signature are ignored.
\<close>

theorem C2_archive_locator:
  "((\<forall>i. \<not> prefix zip_signature (drop i raw)) \<longrightarrow>
      extract_field_mappings env basename output_dir raw = ([], Some ValueError))
   \<and> (prefix zip_signature (drop i raw) \<and> (\<forall>j<i. \<not> prefix zip_signature (drop j raw)) \<longrightarrow>
      extract_field_mappings env basename output_dir raw =
        (case ZipFile env (drop i raw) of
           None \<Rightarrow> ([], Some BadZipFile)
         | Some z \<Rightarrow> (case collect_mappings env z of
               Inl e \<Rightarrow> ([], Some e)
             | Inr mappings \<Rightarrow> write_outputs env basename output_dir mappings))
      \<and> extract_field_mappings env basename output_dir raw =
        extract_field_mappings env basename output_dir (drop i raw))"
  using extract_no_signature [of raw env basename output_dir]
    extract_at_signature [of i raw env basename output_dir]
    extract_ignores_prefix [of i raw env basename output_dir]
  by blast

theorem C2_archive_locator_witness:
  "(\<forall>i. \<not> prefix zip_signature (drop i [0x4D, 0x5A]))
   \<and> extract_field_mappings (example_env direct_wid direct_example (\<lambda>s. None)) ''report'' ''out''
        [0x4D, 0x5A] = ([], Some ValueError)
   \<and> prefix zip_signature (drop 2 ([0x4D, 0x5A] @ direct_wid))
   \<and> \<not> prefix zip_signature (drop 0 ([0x4D, 0x5A] @ direct_wid))
   \<and> \<not> prefix zip_signature (drop 1 ([0x4D, 0x5A] @ direct_wid))
   \<and> extract_field_mappings (example_env direct_wid direct_example (\<lambda>s. None)) ''report'' ''out''
        ([0x4D, 0x5A] @ direct_wid)
      = extract_field_mappings (example_env direct_wid direct_example (\<lambda>s. None)) ''report'' ''out''
        direct_wid
   \<and> extract_field_mappings (example_env direct_wid direct_example (\<lambda>s. None)) ''report'' ''out''
        ([0x4D, 0x5A] @ direct_wid)
      = ([OpenExcel ''out/report_field_map.xlsx'',
          ToExcel ''out/report_field_map.xlsx'' ''All Fields'' [direct_example_row ''DP1'' ''DP1''],
          ToExcel ''out/report_field_map.xlsx'' ''Data Fields'' [direct_example_row ''DP1'' ''DP1''],
          CloseExcel ''out/report_field_map.xlsx'',
          ToCsv ''out/report_field_map.csv'' [direct_example_row ''DP1'' ''DP1'']], None)"
proof -
  let ?env = "example_env direct_wid direct_example (\<lambda>s. None)"
  let ?raw = "[0x4D, 0x5A] @ direct_wid"
  have a: "extract_field_mappings ?env ''report'' ''out'' [0x4D, 0x5A] = ([], Some ValueError)"
    using C2_archive_locator [where raw = "[0x4D, 0x5A]" and env = ?env
        and basename = "''report''" and output_dir = "''out''"] no_signature_example
    by blast
  have "extract_field_mappings ?env ''report'' ''out'' ?raw
      = extract_field_mappings ?env ''report'' ''out'' (drop 2 ?raw)"
    using C2_archive_locator [where raw = ?raw and i = 2 and env = ?env
        and basename = "''report''" and output_dir = "''out''"] signature_after_two(1,2)
    by blast
  then have b: "extract_field_mappings ?env ''report'' ''out'' ?raw
      = extract_field_mappings ?env ''report'' ''out'' direct_wid"
    by (simp only: signature_after_two(3))
  have n: "\<not> prefix zip_signature (drop 0 ?raw)" "\<not> prefix zip_signature (drop 1 ?raw)"
    by (simp_all add: zip_signature_def)
  from b have c: "extract_field_mappings ?env ''report'' ''out'' ?raw
      = ([OpenExcel ''out/report_field_map.xlsx'',
          ToExcel ''out/report_field_map.xlsx'' ''All Fields'' [direct_example_row ''DP1'' ''DP1''],
          ToExcel ''out/report_field_map.xlsx'' ''Data Fields'' [direct_example_row ''DP1'' ''DP1''],
          CloseExcel ''out/report_field_map.xlsx'',
          ToCsv ''out/report_field_map.csv'' [direct_example_row ''DP1'' ''DP1'']], None)"
    by (simp only: direct_example_run)
  from no_signature_example a signature_after_two(1) n b c show ?thesis by (intro conjI)
qed

text \<open>
  Claim C4. The container with the one provider \<open>DP1\<close> whose \<open>DP_Generic\<close> entry is
  the query specification with the object \<open>F1\<close> gives a table of two rows, not one. The
  miner gives the row of the claim: Field Type \<open>Calculated Field\<close>, Formula \<open>SUM(X)\<close>,
  Databricks Column \<open>revenue\<close>. The formula scanner reads the same text, finds the
  attribute \<open>expression="SUM(X)"\<close> of the object, and gives a second row with technical
  id \<open>DP1_FORM_0\<close> and Field Type \<open>Data Provider Formula\<close>, which sorts first. The
  workbook has the three sheets, and the csv file the two rows.
\<close>

theorem C4_object_gives_two_rows:
  assumes "prefix zip_signature (drop i raw)"
    and "\<forall>j<i. \<not> prefix zip_signature (drop j raw)"
    and "ZipFile env (drop i raw) = Some xml_example"
    and "decode env UTF8 (encode_latin1 xml_text) = Inr xml_text"
    and "ET_fromstring env xml_text = Some xml_tree"
    and "\<forall>c. sink env c = None"
  shows "extract_field_mappings env basename output_dir raw =
     (calls_for (os_path_join output_dir (basename @ ''_field_map.xlsx''))
        (os_path_join output_dir (basename @ ''_field_map.csv''))
        [xml_formula_row, xml_field_row], None)
    \<and> excel_sheets [xml_formula_row, xml_field_row] =
        [(''All Fields'', [xml_formula_row, xml_field_row]),
         (''Calculated Fields'', [xml_field_row]),
         (''Data Fields'', [xml_formula_row])]
    \<and> Technical_ID xml_field_row = ''F1'' \<and> Display_Name xml_field_row = ''Revenue''
    \<and> Field_Type xml_field_row = ''Calculated Field'' \<and> Formula xml_field_row = ''SUM(X)''
    \<and> Databricks_Column xml_field_row = ''revenue''
    \<and> Technical_ID xml_formula_row = ''DP1_FORM_0''
    \<and> Field_Type xml_formula_row = ''Data Provider Formula''
    \<and> Formula xml_formula_row = ''SUM(X)''"
proof -
  have c: "collect_mappings env xml_example = Inr [xml_field_row, xml_formula_row]"
    using assms(4,5) by (rule xml_example_collect)
  have "extract_field_mappings env basename output_dir raw =
     (calls_for (os_path_join output_dir (basename @ ''_field_map.xlsx''))
        (os_path_join output_dir (basename @ ''_field_map.csv''))
        (sort_values [xml_field_row, xml_formula_row]), None)"
    by (rule extract_accepting [OF assms(1,2,3) c _ assms(6)]) simp
  then have r: "extract_field_mappings env basename output_dir raw =
     (calls_for (os_path_join output_dir (basename @ ''_field_map.xlsx''))
        (os_path_join output_dir (basename @ ''_field_map.csv''))
        [xml_formula_row, xml_field_row], None)"
    by (simp only: xml_rows_sorted)
  have s: "excel_sheets [xml_formula_row, xml_field_row] =
        [(''All Fields'', [xml_formula_row, xml_field_row]),
         (''Calculated Fields'', [xml_field_row]),
         (''Data Fields'', [xml_formula_row])]"
    by (simp add: excel_sheets_def xml_rows_calculated Let_def)
  have f: "Technical_ID xml_field_row = ''F1''" "Display_Name xml_field_row = ''Revenue''"
    "Field_Type xml_field_row = ''Calculated Field''" "Formula xml_field_row = ''SUM(X)''"
    "Databricks_Column xml_field_row = ''revenue''"
    by (simp_all add: xml_field_row_def)
  have g: "Technical_ID xml_formula_row = ''DP1_FORM_0''"
    "Field_Type xml_formula_row = ''Data Provider Formula''"
    "Formula xml_formula_row = ''SUM(X)''"
    by (simp_all add: xml_formula_row_def)
  from r s f g show ?thesis by (intro conjI)
qed

theorem C4_object_gives_two_rows_witness:
  "prefix zip_signature (drop 0 xml_wid)
   \<and> ZipFile (example_env xml_wid xml_example xml_parse) (drop 0 xml_wid) = Some xml_example
   \<and> decode (example_env xml_wid xml_example xml_parse) UTF8 (encode_latin1 xml_text) = Inr xml_text
   \<and> ET_fromstring (example_env xml_wid xml_example xml_parse) xml_text = Some xml_tree
   \<and> (\<forall>c. sink (example_env xml_wid xml_example xml_parse) c = None)
   \<and> extract_field_mappings (example_env xml_wid xml_example xml_parse) ''wid'' ''.'' xml_wid =
     (calls_for (os_path_join ''.'' (''wid'' @ ''_field_map.xlsx''))
        (os_path_join ''.'' (''wid'' @ ''_field_map.csv''))
        [xml_formula_row, xml_field_row], None)"
proof -
  let ?env = "example_env xml_wid xml_example xml_parse"
  have a: "prefix zip_signature (drop 0 xml_wid)"
    by (rule at_start(1) [OF example_wids(2)])
  have b: "\<forall>j<(0::nat). \<not> prefix zip_signature (drop j xml_wid)" by simp
  have z: "ZipFile ?env (drop 0 xml_wid) = Some xml_example"
    by (simp add: example_env_simps)
  have d: "decode ?env UTF8 (encode_latin1 xml_text) = Inr xml_text"
    by (rule example_decodes)
  have p: "ET_fromstring ?env xml_text = Some xml_tree"
    by (simp add: example_env_simps xml_parse_def)
  have k: "\<forall>c. sink ?env c = None" by (rule example_sink)
  from C4_object_gives_two_rows [OF a b z d p k, of "''wid''" "''.''"]
  have "extract_field_mappings ?env ''wid'' ''.'' xml_wid =
     (calls_for (os_path_join ''.'' (''wid'' @ ''_field_map.xlsx''))
        (os_path_join ''.'' (''wid'' @ ''_field_map.csv''))
        [xml_formula_row, xml_field_row], None)"
    by (rule conjunct1)
  with a z d p k show ?thesis by (intro conjI)
qed

text \<open>
  Against claim C4 as stated: the run on the bytes of that container, with a parser
  that returns the tree of the query specification and a sink that accepts every call.
  The table written to the sheet \<open>All Fields\<close> and to the csv file has two rows.
\<close>

theorem C4_table_has_two_rows:
  "extract_field_mappings (example_env xml_wid xml_example xml_parse) ''report'' ''out'' xml_wid
   = ([OpenExcel ''out/report_field_map.xlsx'',
      ToExcel ''out/report_field_map.xlsx'' ''All Fields'' [xml_formula_row, xml_field_row],
      ToExcel ''out/report_field_map.xlsx'' ''Calculated Fields'' [xml_field_row],
      ToExcel ''out/report_field_map.xlsx'' ''Data Fields'' [xml_formula_row],
      CloseExcel ''out/report_field_map.xlsx'',
      ToCsv ''out/report_field_map.csv'' [xml_formula_row, xml_field_row]], None)
   \<and> length [xml_formula_row, xml_field_row] = 2
   \<and> Field_Type xml_formula_row = ''Data Provider Formula''
   \<and> Field_Type xml_field_row = ''Calculated Field''"
proof -
  have "Field_Type xml_formula_row = ''Data Provider Formula''"
    by (simp add: xml_formula_row_def)
  moreover have "Field_Type xml_field_row = ''Calculated Field''"
    by (simp add: xml_field_row_def)
  moreover have "length [xml_formula_row, xml_field_row] = 2" by simp
  ultimately show ?thesis using xml_example_run by (intro conjI)
qed

text \<open>
  Claim C6. The formula scanner numbers the matches of each of its three patterns from
  0 and assigns them into one dictionary, so the first \<open>formula=\<close> attribute and the
  first \<open>expression=\<close> attribute both get the identifier \<open>DP1_FORM_0\<close> and the second
  assignment replaces the first. On the text \<^verbatim>\<open>formula="A" expression="B"\<close> each
  pattern has one match, and the scanner returns one entry, \<open>DP1_FORM_0\<close> with the
  formula \<open>B\<close>: the attribute \<open>formula="A"\<close> yields no record, and the merger appends
  one row.
\<close>

theorem C6_identifiers_collide:
  \<open>length (re_finditer IGNORECASE (pat_attr ''formula'') ''formula="A" expression="B"'') = 1
   \<and> length (re_finditer IGNORECASE (pat_attr ''expression'') ''formula="A" expression="B"'') = 1
   \<and> extract_dp_formulas ''formula="A" expression="B"'' ''DP1'' = [(''DP1_FORM_0'', ''B'')]
   \<and> process_enhanced_mappings ''DP1'' ''DP1'' [] []
        (extract_dp_formulas ''formula="A" expression="B"'' ''DP1'') []
      = [formula_row ''DP1'' ''DP1'' (''DP1_FORM_0'', ''B'')]\<close>
proof -
  have a: \<open>length (re_finditer IGNORECASE (pat_attr ''formula'') ''formula="A" expression="B"'') = 1\<close>
    by code_simp
  have b: \<open>length (re_finditer IGNORECASE (pat_attr ''expression'') ''formula="A" expression="B"'') = 1\<close>
    by code_simp
  have c: \<open>extract_dp_formulas ''formula="A" expression="B"'' ''DP1'' = [(''DP1_FORM_0'', ''B'')]\<close>
    by code_simp
  have d: \<open>process_enhanced_mappings ''DP1'' ''DP1'' [] []
        (extract_dp_formulas ''formula="A" expression="B"'' ''DP1'') []
      = [formula_row ''DP1'' ''DP1'' (''DP1_FORM_0'', ''B'')]\<close>
    unfolding c by (simp add: process_enhanced_mappings_def)
  from a b c d show ?thesis by (intro conjI)
qed

text \<open>
  Claim C7. In a run that wrote its files, the table \<open>df\<close> handed to the sink is the
  list of rows in discovery order, sorted: of two rows of the table the earlier has the
  smaller provider label, or the same label and a display name that is not greater;
  the rows with one label and one display name stand in their discovery order; and the
  table has the rows of the discovery list, as many as it.
\<close>

theorem C7_table_is_sorted_stably:
  assumes "extract_field_mappings env basename output_dir raw = (cs, None)" and "cs \<noteq> []"
  shows "\<exists>z mappings df.
      collect_mappings env z = Inr mappings
    \<and> cs = calls_for (os_path_join output_dir (basename @ ''_field_map.xlsx''))
        (os_path_join output_dir (basename @ ''_field_map.csv'')) df
    \<and> (\<forall>a b. a < b \<and> b < length df \<longrightarrow>
          Data_Provider (df ! a) < Data_Provider (df ! b)
          \<or> (Data_Provider (df ! a) = Data_Provider (df ! b)
             \<and> Display_Name (df ! a) \<le> Display_Name (df ! b)))
    \<and> (\<forall>p n. filter (\<lambda>r. Data_Provider r = p \<and> Display_Name r = n) df
             = filter (\<lambda>r. Data_Provider r = p \<and> Display_Name r = n) mappings)
    \<and> length df = length mappings \<and> set df = set mappings"
proof -
  from extract_returned [OF assms] obtain z mappings where
    c: "collect_mappings env z = Inr mappings"
    and r: "cs = calls_for (os_path_join output_dir (basename @ ''_field_map.xlsx''))
        (os_path_join output_dir (basename @ ''_field_map.csv'')) (sort_values mappings)"
    by blast
  have o: "\<forall>a b. a < b \<and> b < length (sort_values mappings) \<longrightarrow>
          Data_Provider (sort_values mappings ! a) < Data_Provider (sort_values mappings ! b)
          \<or> (Data_Provider (sort_values mappings ! a) = Data_Provider (sort_values mappings ! b)
             \<and> Display_Name (sort_values mappings ! a) \<le> Display_Name (sort_values mappings ! b))"
    using sort_values_ordered by blast
  have s: "\<forall>p n. filter (\<lambda>r. Data_Provider r = p \<and> Display_Name r = n) (sort_values mappings)
             = filter (\<lambda>r. Data_Provider r = p \<and> Display_Name r = n) mappings"
    using sort_values_stable by blast
  show ?thesis
  proof (intro exI conjI)
    show "collect_mappings env z = Inr mappings" by (rule c)
    show "cs = calls_for (os_path_join output_dir (basename @ ''_field_map.xlsx''))
        (os_path_join output_dir (basename @ ''_field_map.csv'')) (sort_values mappings)" by (rule r)
    show "\<forall>a b. a < b \<and> b < length (sort_values mappings) \<longrightarrow>
          Data_Provider (sort_values mappings ! a) < Data_Provider (sort_values mappings ! b)
          \<or> (Data_Provider (sort_values mappings ! a) = Data_Provider (sort_values mappings ! b)
             \<and> Display_Name (sort_values mappings ! a) \<le> Display_Name (sort_values mappings ! b))"
      by (rule o)
    show "\<forall>p n. filter (\<lambda>r. Data_Provider r = p \<and> Display_Name r = n) (sort_values mappings)
             = filter (\<lambda>r. Data_Provider r = p \<and> Display_Name r = n) mappings" by (rule s)
    show "length (sort_values mappings) = length mappings" by (rule sort_values_same)
    show "set (sort_values mappings) = set mappings" by (rule sort_values_same)
  qed
qed

theorem C7_table_is_sorted_stably_witness:
  "extract_field_mappings (example_env xml_wid xml_example xml_parse) ''report'' ''out'' xml_wid
   = ([OpenExcel ''out/report_field_map.xlsx'',
      ToExcel ''out/report_field_map.xlsx'' ''All Fields'' [xml_formula_row, xml_field_row],
      ToExcel ''out/report_field_map.xlsx'' ''Calculated Fields'' [xml_field_row],
      ToExcel ''out/report_field_map.xlsx'' ''Data Fields'' [xml_formula_row],
      CloseExcel ''out/report_field_map.xlsx'',
      ToCsv ''out/report_field_map.csv'' [xml_formula_row, xml_field_row]], None)
   \<and> (\<exists>z mappings df.
      collect_mappings (example_env xml_wid xml_example xml_parse) z = Inr mappings
    \<and> [OpenExcel ''out/report_field_map.xlsx'',
      ToExcel ''out/report_field_map.xlsx'' ''All Fields'' [xml_formula_row, xml_field_row],
      ToExcel ''out/report_field_map.xlsx'' ''Calculated Fields'' [xml_field_row],
      ToExcel ''out/report_field_map.xlsx'' ''Data Fields'' [xml_formula_row],
      CloseExcel ''out/report_field_map.xlsx'',
      ToCsv ''out/report_field_map.csv'' [xml_formula_row, xml_field_row]]
      = calls_for (os_path_join ''out'' (''report'' @ ''_field_map.xlsx''))
        (os_path_join ''out'' (''report'' @ ''_field_map.csv'')) df
    \<and> (\<forall>a b. a < b \<and> b < length df \<longrightarrow>
          Data_Provider (df ! a) < Data_Provider (df ! b)
          \<or> (Data_Provider (df ! a) = Data_Provider (df ! b)
             \<and> Display_Name (df ! a) \<le> Display_Name (df ! b)))
    \<and> (\<forall>p n. filter (\<lambda>r. Data_Provider r = p \<and> Display_Name r = n) df
             = filter (\<lambda>r. Data_Provider r = p \<and> Display_Name r = n) mappings)
    \<and> length df = length mappings \<and> set df = set mappings)"
proof -
  let ?cs = "[OpenExcel ''out/report_field_map.xlsx'',
      ToExcel ''out/report_field_map.xlsx'' ''All Fields'' [xml_formula_row, xml_field_row],
      ToExcel ''out/report_field_map.xlsx'' ''Calculated Fields'' [xml_field_row],
      ToExcel ''out/report_field_map.xlsx'' ''Data Fields'' [xml_formula_row],
      CloseExcel ''out/report_field_map.xlsx'',
      ToCsv ''out/report_field_map.csv'' [xml_formula_row, xml_field_row]]"
  have ne: "?cs \<noteq> []" by simp
  from xml_example_run C7_table_is_sorted_stably [OF xml_example_run ne]
  show ?thesis by (rule conjI)
qed



text \<open>
  Claim C9. A run that wrote its files made these calls, for a table \<open>df\<close> that is
  not empty: the workbook is opened, the sheets are written, the workbook is closed and
  the csv file is written. The sheets are \<open>All Fields\<close> with the whole table and
  \<open>Data Fields\<close> with the rows that are neither calculated fields nor report
  variables, written also when there is no such row; between them, the sheet
  \<open>Calculated Fields\<close> is written only when some row is a calculated field or a report
  variable. When no row is, the workbook has two sheets.
\<close>

theorem C9_calculated_sheet_when_not_empty:
  assumes "extract_field_mappings env basename output_dir raw = (cs, None)" and "cs \<noteq> []"
  shows "\<exists>df. df \<noteq> []
    \<and> cs = OpenExcel (os_path_join output_dir (basename @ ''_field_map.xlsx''))
        # map (\<lambda>(name, rows). ToExcel (os_path_join output_dir (basename @ ''_field_map.xlsx'')) name rows)
            (excel_sheets df)
        @ [CloseExcel (os_path_join output_dir (basename @ ''_field_map.xlsx'')),
           ToCsv (os_path_join output_dir (basename @ ''_field_map.csv'')) df]
    \<and> excel_sheets df =
       (if list_ex is_calculated_row df
        then [(''All Fields'', df), (''Calculated Fields'', filter is_calculated_row df),
              (''Data Fields'', filter (\<lambda>r. \<not> is_calculated_row r) df)]
        else [(''All Fields'', df), (''Data Fields'', df)])"
proof -
  from extract_returned [OF assms] obtain z mappings where
    n: "mappings \<noteq> []"
    and r: "cs = calls_for (os_path_join output_dir (basename @ ''_field_map.xlsx''))
        (os_path_join output_dir (basename @ ''_field_map.csv'')) (sort_values mappings)"
    by blast
  have "length (sort_values mappings) = length mappings" by (rule sort_values_same)
  with n have "sort_values mappings \<noteq> []" by auto
  moreover have "cs = OpenExcel (os_path_join output_dir (basename @ ''_field_map.xlsx''))
        # map (\<lambda>(name, rows). ToExcel (os_path_join output_dir (basename @ ''_field_map.xlsx'')) name rows)
            (excel_sheets (sort_values mappings))
        @ [CloseExcel (os_path_join output_dir (basename @ ''_field_map.xlsx'')),
           ToCsv (os_path_join output_dir (basename @ ''_field_map.csv'')) (sort_values mappings)]"
    using r by (simp only: calls_for_def)
  ultimately show ?thesis using excel_sheets_cases [of "sort_values mappings"]
    by (intro exI conjI)
qed

theorem C9_calculated_sheet_when_not_empty_witness:
  "extract_field_mappings (example_env xml_wid xml_example xml_parse) ''report'' ''out'' xml_wid
   = ([OpenExcel ''out/report_field_map.xlsx'',
      ToExcel ''out/report_field_map.xlsx'' ''All Fields'' [xml_formula_row, xml_field_row],
      ToExcel ''out/report_field_map.xlsx'' ''Calculated Fields'' [xml_field_row],
      ToExcel ''out/report_field_map.xlsx'' ''Data Fields'' [xml_formula_row],
      CloseExcel ''out/report_field_map.xlsx'',
      ToCsv ''out/report_field_map.csv'' [xml_formula_row, xml_field_row]], None)
   \<and> (\<exists>df. df \<noteq> []
    \<and> [OpenExcel ''out/report_field_map.xlsx'',
      ToExcel ''out/report_field_map.xlsx'' ''All Fields'' [xml_formula_row, xml_field_row],
      ToExcel ''out/report_field_map.xlsx'' ''Calculated Fields'' [xml_field_row],
      ToExcel ''out/report_field_map.xlsx'' ''Data Fields'' [xml_formula_row],
      CloseExcel ''out/report_field_map.xlsx'',
      ToCsv ''out/report_field_map.csv'' [xml_formula_row, xml_field_row]]
      = OpenExcel (os_path_join ''out'' (''report'' @ ''_field_map.xlsx''))
        # map (\<lambda>(name, rows). ToExcel (os_path_join ''out'' (''report'' @ ''_field_map.xlsx'')) name rows)
            (excel_sheets df)
        @ [CloseExcel (os_path_join ''out'' (''report'' @ ''_field_map.xlsx'')),
           ToCsv (os_path_join ''out'' (''report'' @ ''_field_map.csv'')) df]
    \<and> excel_sheets df =
       (if list_ex is_calculated_row df
        then [(''All Fields'', df), (''Calculated Fields'', filter is_calculated_row df),
              (''Data Fields'', filter (\<lambda>r. \<not> is_calculated_row r) df)]
        else [(''All Fields'', df), (''Data Fields'', df)]))"
proof -
  let ?cs = "[OpenExcel ''out/report_field_map.xlsx'',
      ToExcel ''out/report_field_map.xlsx'' ''All Fields'' [xml_formula_row, xml_field_row],
      ToExcel ''out/report_field_map.xlsx'' ''Calculated Fields'' [xml_field_row],
      ToExcel ''out/report_field_map.xlsx'' ''Data Fields'' [xml_formula_row],
      CloseExcel ''out/report_field_map.xlsx'',
      ToCsv ''out/report_field_map.csv'' [xml_formula_row, xml_field_row]]"
  have ne: "?cs \<noteq> []" by simp
  from xml_example_run C9_calculated_sheet_when_not_empty [OF xml_example_run ne]
  show ?thesis by (rule conjI)
qed

text \<open>
  Against claim C9 as stated: the container whose one provider has the text
  \<open>Total = 42, DP1.DO7\<close> gives a table of one row, which is a data field. The run
  writes the sheets \<open>All Fields\<close> and \<open>Data Fields\<close> and no sheet
  \<open>Calculated Fields\<close>.
\<close>

theorem C9_workbook_with_two_sheets:
  "extract_field_mappings (example_env direct_wid direct_example (\<lambda>s. None)) ''report'' ''out''
      direct_wid
   = ([OpenExcel ''out/report_field_map.xlsx'',
      ToExcel ''out/report_field_map.xlsx'' ''All Fields'' [direct_example_row ''DP1'' ''DP1''],
      ToExcel ''out/report_field_map.xlsx'' ''Data Fields'' [direct_example_row ''DP1'' ''DP1''],
      CloseExcel ''out/report_field_map.xlsx'',
      ToCsv ''out/report_field_map.csv'' [direct_example_row ''DP1'' ''DP1'']], None)
   \<and> map fst (excel_sheets [direct_example_row ''DP1'' ''DP1'']) = [''All Fields'', ''Data Fields'']"
proof -
  have "map fst (excel_sheets [direct_example_row ''DP1'' ''DP1'']) = [''All Fields'', ''Data Fields'']"
    by (simp add: excel_sheets_def direct_row_not_calculated Let_def)
  with direct_example_run show ?thesis by (rule conjI)
qed

text \<open>
  Claim C10. The list of rows is shared by all providers and the duplicate check of
  the second loop looks at all of it. Of the rows one call of the merger appends, no
  direct-mapping row has the technical id of a row that was in the list before the
  call, whichever provider that row came from. So in the list the provider loop
  returns, a direct-mapping row never has the technical id of a row before it: a
  technical id captured for one provider keeps every later provider from adding a
  direct-mapping row for it.
\<close>

theorem C10_duplicate_check_is_global:
  "(\<forall>r \<in> set (drop (length out)
        (process_enhanced_mappings dp_id dp_name field_info direct_map dp_forms out)).
       Description r = ''Direct mapping'' \<longrightarrow> Technical_ID r \<notin> Technical_ID ` set out)
   \<and> (provider_loop env z dp_names folders tv [] = Inr ms \<longrightarrow>
       (\<forall>i j. i < j \<and> j < length ms \<and> Description (ms ! j) = ''Direct mapping''
          \<longrightarrow> Technical_ID (ms ! i) \<noteq> Technical_ID (ms ! j)))"
proof (intro conjI ballI impI allI)
  fix r
  assume r: "r \<in> set (drop (length out)
        (process_enhanced_mappings dp_id dp_name field_info direct_map dp_forms out))"
    and d: "Description r = ''Direct mapping''"
  let ?F = "map (field_row dp_id dp_name) field_info"
  let ?G = "map (formula_row dp_id dp_name) dp_forms"
  from process_decomposed [of dp_id dp_name field_info direct_map dp_forms out]
  obtain new where
    p: "process_enhanced_mappings dp_id dp_name field_info direct_map dp_forms out = out @ ?F @ new @ ?G"
    and f: "\<forall>r\<in>set new. Description r = ''Direct mapping'' \<and> Technical_ID r \<notin> Technical_ID ` set (out @ ?F)"
    by blast
  from r have "r \<in> set ?F \<or> r \<in> set new \<or> r \<in> set ?G" by (auto simp: p)
  moreover have "r \<notin> set ?F" using d field_row_not_direct by auto
  moreover have "r \<notin> set ?G" using d formula_row_not_direct by auto
  ultimately have "r \<in> set new" by blast
  with f show "Technical_ID r \<notin> Technical_ID ` set out" by auto
next
  fix i j
  assume l: "provider_loop env z dp_names folders tv [] = Inr ms"
    and ij: "i < j \<and> j < length ms \<and> Description (ms ! j) = ''Direct mapping''"
  have "direct_ids_fresh ms"
    using fresh_empty l by (rule fresh_provider_loop)
  with ij show "Technical_ID (ms ! i) \<noteq> Technical_ID (ms ! j)"
    by (simp add: direct_ids_fresh_def)
qed

theorem C10_duplicate_check_is_global_witness:
  "process_enhanced_mappings ''DP2'' ''DP2'' []
     [(''DP1.DO7'', \<lparr>dm_display_name = ''Sum'', dm_sample_value = ''1''\<rparr>),
      (''DP2.DO9'', \<lparr>dm_display_name = [], dm_sample_value = []\<rparr>)] []
     [direct_example_row ''DP1'' ''DP1'']
    = [direct_example_row ''DP1'' ''DP1'', second_example_row]
   \<and> Description second_example_row = ''Direct mapping''
   \<and> Technical_ID second_example_row \<notin> Technical_ID ` set [direct_example_row ''DP1'' ''DP1'']
   \<and> provider_loop (example_env two_wid two_example (\<lambda>s. None)) two_example
        [(''DP1'', ''DP1''), (''DP2'', ''DP2'')]
        [''Data/DATAPROVIDERS/DP1/'', ''Data/DATAPROVIDERS/DP2/''] None []
      = Inr [direct_example_row ''DP1'' ''DP1'', second_example_row]
   \<and> Technical_ID ([direct_example_row ''DP1'' ''DP1'', second_example_row] ! 0)
      \<noteq> Technical_ID ([direct_example_row ''DP1'' ''DP1'', second_example_row] ! 1)"
proof -
  let ?env = "example_env two_wid two_example (\<lambda>s. None)"
  let ?dm = "[(''DP1.DO7'', \<lparr>dm_display_name = ''Sum'', dm_sample_value = ''1''\<rparr>),
      (''DP2.DO9'', \<lparr>dm_display_name = [], dm_sample_value = []\<rparr>)]"
  let ?ms = "[direct_example_row ''DP1'' ''DP1'', second_example_row]"
  have l: "provider_loop ?env two_example [(''DP1'', ''DP1''), (''DP2'', ''DP2'')]
        [''Data/DATAPROVIDERS/DP1/'', ''Data/DATAPROVIDERS/DP2/''] None [] = Inr ?ms"
    by (rule two_example_loop) (rule example_decodes)+
  have d: "Description second_example_row = ''Direct mapping''"
    by (simp add: second_example_row_def)
  note inst = C10_duplicate_check_is_global [where out = "[direct_example_row ''DP1'' ''DP1'']"
      and dp_id = "''DP2''" and dp_name = "''DP2''" and field_info = "[]" and direct_map = ?dm
      and dp_forms = "[]" and env = ?env and z = two_example
      and dp_names = "[(''DP1'', ''DP1''), (''DP2'', ''DP2'')]"
      and folders = "[''Data/DATAPROVIDERS/DP1/'', ''Data/DATAPROVIDERS/DP2/'']"
      and tv = None and ms = ?ms]
  from inst have a: "Technical_ID second_example_row
      \<notin> Technical_ID ` set [direct_example_row ''DP1'' ''DP1'']"
    using d by (simp add: two_example_process)
  from inst l have "\<forall>i j. i < j \<and> j < length ?ms \<and> Description (?ms ! j) = ''Direct mapping''
          \<longrightarrow> Technical_ID (?ms ! i) \<noteq> Technical_ID (?ms ! j)"
    by blast
  then have "(0::nat) < 1 \<and> 1 < length ?ms \<and> Description (?ms ! 1) = ''Direct mapping''
          \<longrightarrow> Technical_ID (?ms ! 0) \<noteq> Technical_ID (?ms ! 1)"
    by blast
  then have b: "Technical_ID (?ms ! 0) \<noteq> Technical_ID (?ms ! 1)"
    using d by simp
  from two_example_process d a l b show ?thesis by (intro conjI)
qed

end
